theory Spec2Isabelle
  imports Main "HOL-Library.Sublist" "HOL-Library.Multiset" "HOL-Library.List_Lexorder"
begin

section \<open>Strings\<close>

text \<open>
  A JavaScript string is modelled as a \<^typ>\<open>string\<close> whose characters are the code
  units below 256 (ASCII and the Latin-1 supplement). \<open>toLowerCase\<close> maps \<open>A-Z\<close> and the
  upper-case letters of the Latin-1 supplement (U+00C0 to U+00DE without U+00D7) to
  their lower-case partners, the white space class \<open>\s\<close> (also used by \<open>trim\<close>) holds
  U+0009 to U+000D, the space and U+00A0, and the word class \<open>\w\<close> is \<open>[A-Za-z0-9_]\<close>.
\<close>

definition lowerChar :: "char \<Rightarrow> char" where
  "lowerChar c =
     (let n = (of_char c :: nat)
      in if (65 \<le> n \<and> n \<le> 90) \<or> (192 \<le> n \<and> n \<le> 222 \<and> n \<noteq> 215)
         then char_of (n + 32) else c)"

definition toLowerCase :: "string \<Rightarrow> string" where
  "toLowerCase s = map lowerChar s"

definition isSpace :: "char \<Rightarrow> bool" where
  "isSpace c = (let n = (of_char c :: nat) in (9 \<le> n \<and> n \<le> 13) \<or> n = 32 \<or> n = 160)"

definition isWordChar :: "char \<Rightarrow> bool" where
  "isWordChar c =
     (let n = (of_char c :: nat)
      in (48 \<le> n \<and> n \<le> 57) \<or> (65 \<le> n \<and> n \<le> 90) \<or> n = 95 \<or> (97 \<le> n \<and> n \<le> 122))"

definition isLowerAlnum :: "char \<Rightarrow> bool" where
  "isLowerAlnum c =
     (let n = (of_char c :: nat) in (48 \<le> n \<and> n \<le> 57) \<or> (97 \<le> n \<and> n \<le> 122))"

definition trim :: "string \<Rightarrow> string" where
  "trim s = rev (dropWhile isSpace (rev (dropWhile isSpace s)))"

text \<open>\<open>s.includes(sub)\<close>: \<open>sub\<close> occurs in \<open>s\<close> as a contiguous block.\<close>

fun includesStr :: "string \<Rightarrow> string \<Rightarrow> bool" where
  "includesStr [] sub = (sub = [])"
| "includesStr (c # cs) sub = (prefix sub (c # cs) \<or> includesStr cs sub)"

text \<open>\<open>s.split(c)\<close> for a one-character separator; the empty string gives one empty piece.\<close>

fun splitOn :: "char \<Rightarrow> string \<Rightarrow> string list" where
  "splitOn c [] = [] # []"
| "splitOn c (x # xs) =
     (if x = c then [] # splitOn c xs
      else (case splitOn c xs of [] \<Rightarrow> [x] # [] | w # ws \<Rightarrow> (x # w) # ws))"

text \<open>\<open>s.slice(0, -n)\<close> for \<open>n \<ge> 0\<close>: \<open>-0\<close> is \<open>0\<close>, so \<open>n = 0\<close> gives the empty string.\<close>

definition sliceOff :: "string \<Rightarrow> nat \<Rightarrow> string" where
  "sliceOff s n = (if n = 0 then [] else take (length s - n) s)"

section \<open>Text normalisation\<close>

definition STOPWORDS :: "string list" where
  "STOPWORDS = [''the'', ''a'', ''an'', ''of'', ''for'', ''and'', ''to'', ''in'', ''on'', ''at'',
     ''with'', ''from'', ''by'', ''about'', ''as'', ''is'', ''are'', ''was'', ''were'', ''be'',
     ''been'', ''it'', ''this'', ''that'', ''these'', ''those'', ''you'', ''your'']"

text \<open>\<open>.replace(/[^a-z0-9\s]/g, ' ')\<close>\<close>

definition blankOthers :: "string \<Rightarrow> string" where
  "blankOthers s = map (\<lambda>c. if isLowerAlnum c \<or> isSpace c then c else CHR '' '') s"

text \<open>\<open>.replace(/\s+/g, ' ')\<close>: the flag says whether the previous character was white space.\<close>

fun collapseWs :: "bool \<Rightarrow> string \<Rightarrow> string" where
  "collapseWs prev [] = []"
| "collapseWs prev (c # cs) =
     (if isSpace c then (if prev then collapseWs True cs else CHR '' '' # collapseWs True cs)
      else c # collapseWs False cs)"

definition normalizeText :: "string \<Rightarrow> string" where
  "normalizeText s = trim (collapseWs False (blankOthers (toLowerCase s)))"

definition tokensFromText :: "string \<Rightarrow> string list" where
  "tokensFromText text =
     filter (\<lambda>t. t \<noteq> [] \<and> 3 \<le> length t \<and> t \<notin> set STOPWORDS) (splitOn CHR '' '' (normalizeText text))"

section \<open>Light stemming\<close>

definition rules :: "(string \<times> string) list" where
  "rules = [
     (''ically'', ''ic''), (''ally'', ''al''), (''ingly'', ''ing''), (''iness'', ''y''),
     (''fulness'', ''ful''), (''ations'', ''ation''), (''tional'', ''tion''),
     (''ational'', ''ation''), (''ively'', ''ive''), (''ously'', ''ous''),
     (''lessness'', ''less''), (''ments'', ''ment''), (''ment'', ''ment''), (''ness'', ''''),
     (''less'', ''less''), (''ships'', ''ship''), (''ship'', ''ship''), (''ings'', ''ing''),
     (''ing'', ''''), (''ized'', ''ize''), (''izes'', ''ize''), (''izer'', ''ize''),
     (''edly'', ''ed''), (''edly'', ''ed''), (''ed'', ''''), (''ers'', ''er''), (''er'', ''''),
     (''ies'', ''y''), (''ics'', ''ic''), (''ical'', ''ic''), (''ials'', ''ial''),
     (''ial'', ''ial''), (''als'', ''al''), (''al'', ''al''), (''s'', '''')]"

text \<open>The loop over the rule table: the first rule that applies rewrites the word and ends the loop.\<close>

fun applyRules :: "(string \<times> string) list \<Rightarrow> string \<Rightarrow> string" where
  "applyRules [] s = s"
| "applyRules ((suf, repl) # rs) s =
     (if suffix suf s \<and> 3 \<le> int (length s) - int (length suf)
      then sliceOff s (length suf) @ repl
      else applyRules rs s)"

definition simpleStem :: "string \<Rightarrow> string" where
  "simpleStem w = applyRules rules (toLowerCase w)"

fun stemLoop :: "string \<Rightarrow> string list \<Rightarrow> bool" where
  "stemLoop q [] = False"
| "stemLoop q (tok # toks) =
     (let st = simpleStem tok
      in if st = q then True
         else if prefix q st \<and> int (length st) - int (length q) \<le> 3 then True
         else if prefix st q \<and> int (length q) - int (length st) \<le> 2 then True
         else stemLoop q toks)"

definition tokensContainStem :: "string list \<Rightarrow> string \<Rightarrow> bool" where
  "tokensContainStem toks queryToken = stemLoop (simpleStem queryToken) toks"

section \<open>Regular expressions of the source\<close>

text \<open>
  \<open>re.test(s)\<close> looks for a match at every position of \<open>s\<close>, from left to right.
  \<open>searchFrom P prev s\<close> tries \<open>P\<close> at every position; \<open>prev\<close> is the character before the
  position (none at the start), which \<open>\b\<close> and \<open>(^|[_\-\s])\<close> look at.
\<close>

fun searchFrom :: "(char option \<Rightarrow> string \<Rightarrow> bool) \<Rightarrow> char option \<Rightarrow> string \<Rightarrow> bool" where
  "searchFrom P prev [] = P prev []"
| "searchFrom P prev (c # cs) = (P prev (c # cs) \<or> searchFrom P (Some c) cs)"

text \<open>\<open>\b\<close>: exactly one of the two neighbours is a word character.\<close>

definition boundary :: "char option \<Rightarrow> string \<Rightarrow> bool" where
  "boundary prev rest =
     ((case prev of None \<Rightarrow> False | Some c \<Rightarrow> isWordChar c)
        \<noteq> (case rest of [] \<Rightarrow> False | c # _ \<Rightarrow> isWordChar c))"

text \<open>\<open>\blit\b\<close> at a position, for a literal \<open>lit\<close> that is not empty.\<close>

definition wordLit :: "string \<Rightarrow> char option \<Rightarrow> string \<Rightarrow> bool" where
  "wordLit lit prev rest =
     (boundary prev rest \<and> prefix lit rest \<and> boundary (Some (last lit)) (drop (length lit) rest))"

text \<open>\<open>a\s+b\<close> at a position, for a literal \<open>b\<close> that does not start with white space.\<close>

definition spaced :: "string \<Rightarrow> string \<Rightarrow> string \<Rightarrow> bool" where
  "spaced a b rest =
     (prefix a rest \<and>
      (case drop (length a) rest of [] \<Rightarrow> False
       | c # cs \<Rightarrow> isSpace c \<and> prefix b (dropWhile isSpace cs)))"

definition shouldUsePoliticsDomain :: "string \<Rightarrow> bool" where
  "shouldUsePoliticsDomain query =
     (let q = toLowerCase query
      in searchFrom (\<lambda>prev rest.
           prefix ''politic'' rest \<or> prefix ''parliament'' rest \<or> prefix ''congress'' rest \<or>
           prefix ''senate'' rest \<or> prefix ''election'' rest \<or> prefix ''government'' rest \<or>
           prefix ''whitehall'' rest \<or> spaced ''downing'' ''street'' rest) None q)"

text \<open>
  The value of the feed-group selector is the one piece of page state that region
  detection reads; it is passed as \<open>feedGroup\<close> (the empty string when there is no selector).
\<close>

definition afterSeparator :: "char option \<Rightarrow> bool" where
  "afterSeparator prev =
     (case prev of None \<Rightarrow> True | Some c \<Rightarrow> c = CHR ''_'' \<or> c = CHR ''-'' \<or> isSpace c)"

definition inferRegionFromGroup :: "string \<Rightarrow> string option" where
  "inferRegionFromGroup feedGroup =
     (let g = toLowerCase feedGroup
      in if g = [] then None
         else if searchFrom (\<lambda>prev rest. afterSeparator prev \<and>
                (prefix ''uk'' rest \<or> prefix ''brit'' rest \<or> prefix ''eng'' rest \<or>
                 prefix ''wales'' rest \<or> prefix ''scot'' rest)) None g then Some ''uk''
         else if searchFrom (\<lambda>prev rest. afterSeparator prev \<and>
                (prefix ''us'' rest \<or> prefix ''usa'' rest \<or> prefix ''america'' rest \<or>
                 prefix ''states'' rest)) None g then Some ''usa''
         else if searchFrom (\<lambda>prev rest. afterSeparator prev \<and>
                (prefix ''eu'' rest \<or> prefix ''europe'' rest \<or> prefix ''european'' rest)) None g
              then Some ''eu''
         else None)"

text \<open>A JavaScript \<open>Set\<close> of strings is a list in insertion order; \<open>setAdd\<close> is \<open>Set.prototype.add\<close>.\<close>

definition setAdd :: "'a \<Rightarrow> 'a list \<Rightarrow> 'a list" where
  "setAdd x s = (if x \<in> set s then s else s @ [x])"

definition detectRegionsFromQuery :: "string \<Rightarrow> string list" where
  "detectRegionsFromQuery query =
     (let q = toLowerCase query;
          r0 = [];
          r1 = (if searchFrom (\<lambda>prev rest.
                   wordLit ''uk'' prev rest \<or> spaced ''united'' ''kingdom'' rest \<or>
                   prefix ''british'' rest \<or> prefix ''england'' rest \<or> prefix ''scotland'' rest \<or>
                   prefix ''wales'' rest \<or> spaced ''northern'' ''ireland'' rest) None q
                then setAdd ''uk'' r0 else r0);
          r2 = (if searchFrom (\<lambda>prev rest.
                   wordLit ''usa'' prev rest \<or> wordLit ''us'' prev rest \<or>
                   spaced ''united'' ''states'' rest \<or> prefix ''america'' rest \<or>
                   prefix ''american'' rest) None q
                then setAdd ''usa'' r1 else r1);
          r3 = (if searchFrom (\<lambda>prev rest.
                   wordLit ''eu'' prev rest \<or> prefix ''europe'' rest \<or> prefix ''european'' rest \<or>
                   spaced ''european'' ''union'' rest) None q
                then setAdd ''eu'' r2 else r2)
      in r3)"

definition detectRegionsFromContext :: "string \<Rightarrow> string \<Rightarrow> string list" where
  "detectRegionsFromContext feedGroup query =
     (let regions = detectRegionsFromQuery query
      in if length regions = 0
         then (case inferRegionFromGroup feedGroup of None \<Rightarrow> regions | Some fromGroup \<Rightarrow> setAdd fromGroup regions)
         else regions)"

definition defaultRegionAnchors :: "string \<Rightarrow> string list" where
  "defaultRegionAnchors region =
     (if region = ''uk'' then
        [''uk'', ''british'', ''england'', ''scotland'', ''wales'', ''northern ireland'',
         ''westminster'', ''downing street'', ''whitehall'', ''house of commons'',
         ''house of lords'', ''no 10'', ''number 10'']
      else if region = ''usa'' then
        [''usa'', ''us'', ''american'', ''washington'', ''white house'', ''capitol hill'',
         ''senate'', ''congress'']
      else if region = ''eu'' then
        [''eu'', ''europe'', ''european'', ''brussels'', ''strasbourg'', ''commission'']
      else [])"

section \<open>Domain expansion\<close>

text \<open>
  The domain-terms document: an object whose region maps are association lists in the
  order of \<open>Object.keys\<close>, with one entry per key. An absent member is \<open>None\<close>; an absent
  \<open>synonyms\<close> or \<open>related_terms\<close> list is the empty list, as \<open>(p.synonyms || [])\<close> reads it.
\<close>

type_synonym regionMap = "(string \<times> string list) list"

record Politics =
  synonyms :: "string list"
  related_terms :: "string list"
  parties :: "regionMap option"
  institutions :: "regionMap option"
  people :: "regionMap option"

record DomainTerms =
  politics :: "Politics option"

text \<open>
  Query parts. \<open>parseQueryParts\<close> builds an object with \<open>phrases\<close> and \<open>tokens\<close> only, so the
  two other members can be absent (\<open>None\<close>).
\<close>

record QueryParts =
  phrases :: "string list"
  tokens :: "string list"
  excludeTokens :: "string list option"
  anchorTokens :: "string list option"

definition addTerm :: "string \<Rightarrow> QueryParts \<Rightarrow> QueryParts" where
  "addTerm t out =
     (if t = [] then out
      else let s = trim t
           in if s = [] then out
              else if CHR '' '' \<in> set s then
                (let low = toLowerCase s
                 in if \<not> list_ex (\<lambda>ph. toLowerCase ph = low) (phrases out)
                    then out\<lparr>phrases := phrases out @ [s]\<rparr> else out)
              else
                (let low = toLowerCase s
                 in if \<not> list_ex (\<lambda>tok. toLowerCase tok = low) (tokens out)
                       \<and> low \<notin> set STOPWORDS \<and> 2 \<le> length low
                    then out\<lparr>tokens := tokens out @ [s]\<rparr> else out))"

text \<open>\<open>obj && Array.isArray(obj[r])\<close>: the list stored for region \<open>r\<close>, if there is one.\<close>

definition regionArray :: "regionMap option \<Rightarrow> string \<Rightarrow> string list option" where
  "regionArray obj r = (case obj of None \<Rightarrow> None | Some m \<Rightarrow> map_of m r)"

definition objectKeys :: "regionMap option \<Rightarrow> string list" where
  "objectKeys obj = (case obj of None \<Rightarrow> [] | Some m \<Rightarrow> map fst m)"

definition addFromRegions :: "string list \<Rightarrow> regionMap option \<Rightarrow> QueryParts \<Rightarrow> QueryParts" where
  "addFromRegions targetRegions obj out =
     fold (\<lambda>r acc. case regionArray obj r of None \<Rightarrow> acc | Some arr \<Rightarrow> fold addTerm arr acc)
       targetRegions out"

definition addLowered :: "string list \<Rightarrow> string list \<Rightarrow> string list" where
  "addLowered ts anchorSet = fold (\<lambda>t s. setAdd (toLowerCase t) s) ts anchorSet"

definition anchorsOf :: "Politics \<Rightarrow> string list \<Rightarrow> string list" where
  "anchorsOf p targetRegions =
     fold (\<lambda>r anchorSet.
        let a1 = addLowered (defaultRegionAnchors r) anchorSet;
            a2 = (case regionArray (parties p) r of None \<Rightarrow> a1 | Some arr \<Rightarrow> addLowered arr a1);
            a3 = (case regionArray (institutions p) r of None \<Rightarrow> a2 | Some arr \<Rightarrow> addLowered arr a2);
            a4 = (case regionArray (people p) r of None \<Rightarrow> a3 | Some arr \<Rightarrow> addLowered arr a3)
        in a4) targetRegions []"

definition collectFromRegions :: "string list \<Rightarrow> regionMap option \<Rightarrow> string list" where
  "collectFromRegions otherRegions obj =
     fold (\<lambda>r list. case regionArray obj r of None \<Rightarrow> list | Some arr \<Rightarrow> list @ arr)
       otherRegions []"

definition expandQueryWithDomain ::
  "DomainTerms option \<Rightarrow> string \<Rightarrow> QueryParts \<Rightarrow> string \<Rightarrow> QueryParts" where
  "expandQueryWithDomain domainTerms feedGroup qparts query =
     (case domainTerms of None \<Rightarrow> qparts
      | Some dt \<Rightarrow>
        let out = \<lparr>phrases = phrases qparts, tokens = tokens qparts,
                   excludeTokens = Some [], anchorTokens = Some []\<rparr>
        in case politics dt of None \<Rightarrow> out
           | Some p \<Rightarrow>
             if \<not> shouldUsePoliticsDomain query then out
             else
               let regions = detectRegionsFromContext feedGroup query;
                   out1 = fold addTerm (synonyms p) out;
                   regionKeySet = fold setAdd (objectKeys (people p))
                                    (fold setAdd (objectKeys (institutions p))
                                       (fold setAdd (objectKeys (parties p)) []));
                   allRegions = regionKeySet;
                   targetRegions = (if length regions \<noteq> 0 then regions else allRegions);
                   otherRegions = filter (\<lambda>r. r \<notin> set regions) allRegions;
                   out2 = addFromRegions targetRegions (parties p) out1;
                   out3 = addFromRegions targetRegions (institutions p) out2;
                   out4 = addFromRegions targetRegions (people p) out3;
                   out5 = out4\<lparr>anchorTokens := Some (anchorsOf p targetRegions)\<rparr>;
                   out6 = out5\<lparr>excludeTokens :=
                            Some (collectFromRegions otherRegions (parties p)
                                  @ collectFromRegions otherRegions (institutions p)
                                  @ collectFromRegions otherRegions (people p))\<rparr>
               in fold addTerm (related_terms p) out6)"

section \<open>Query parsing\<close>

text \<open>
  The global regular expression \<open>/"([^"]+)"/g\<close>: a match is a quote, one or more
  characters that are not quotes, and a quote; the search goes on after a match and
  one character further where there is none. \<open>scanQuotes\<close> returns the captured groups in
  order (the \<open>exec\<close> loop) and the string with every match replaced by a space (\<open>replace\<close>).
\<close>

definition dq :: char where
  "dq = CHR 0x22"

function scanQuotes :: "string \<Rightarrow> string list \<times> string" where
  "scanQuotes [] = ([], [])"
| "scanQuotes (c # cs) =
     (let inner = takeWhile (\<lambda>x. x \<noteq> dq) cs;
          after = dropWhile (\<lambda>x. x \<noteq> dq) cs
      in if c = dq \<and> inner \<noteq> [] \<and> after \<noteq> []
         then (case scanQuotes (tl after) of (groups, rest) \<Rightarrow> (inner # groups, CHR '' '' # rest))
         else (case scanQuotes cs of (groups, rest) \<Rightarrow> (groups, c # rest)))"
  by pat_completeness auto
termination
proof (relation "measure length")
  show "wf (measure length)" by simp
next
  fix c :: char and cs inner after :: string
  assume "after = dropWhile (\<lambda>x. x \<noteq> dq) cs"
  moreover have "length (dropWhile (\<lambda>x. x \<noteq> dq) cs) \<le> length cs"
    by (rule length_dropWhile_le)
  ultimately show "(tl after, c # cs) \<in> measure length"
    by simp
next
  fix c :: char and cs :: string
  show "(cs, c # cs) \<in> measure length" by simp
qed

definition parseQueryParts :: "string \<Rightarrow> QueryParts" where
  "parseQueryParts q =
     (if q = [] then \<lparr>phrases = [], tokens = [], excludeTokens = None, anchorTokens = None\<rparr>
      else
        let phs = filter (\<lambda>ph. ph \<noteq> []) (map trim (fst (scanQuotes q)));
            rest = snd (scanQuotes q);
            rough = filter (\<lambda>t. t \<noteq> []) (splitOn CHR '' '' (normalizeText rest));
            toks = filter (\<lambda>t. 3 \<le> length t \<and> t \<notin> set STOPWORDS) rough
        in \<lparr>phrases = phs, tokens = toks, excludeTokens = None, anchorTokens = None\<rparr>)"

section \<open>Headline scoring\<close>

record Headline =
  title :: string
  summary :: string
  source :: string
  link :: string

record ScoredCandidate =
  index :: nat
  score :: int

text \<open>
  \<open>escapeRegExp\<close> puts a backslash before every character that is special in a regular
  expression, so \<open>new RegExp(escapeRegExp(x))\<close> matches the literal \<open>x\<close>: its \<open>test\<close> is
  \<open>includesStr\<close>. With the \<open>i\<close> flag two characters match when their lower-case forms agree.
\<close>

definition ciPrefix :: "string \<Rightarrow> string \<Rightarrow> bool" where
  "ciPrefix t rest =
     (length t \<le> length rest \<and> toLowerCase (take (length t) rest) = toLowerCase t)"

text \<open>\<open>new RegExp(`\\b${escapeRegExp(t)}\\b`, 'i').test(text)\<close>\<close>

definition reWordTest :: "string \<Rightarrow> string \<Rightarrow> bool" where
  "reWordTest t text =
     searchFrom (\<lambda>prev rest.
        boundary prev rest \<and> ciPrefix t rest \<and>
        boundary (if t = [] then prev else Some (last (take (length t) rest)))
                 (drop (length t) rest)) None text"

fun phraseLoop :: "string \<Rightarrow> string \<Rightarrow> string list \<Rightarrow> int \<times> bool \<Rightarrow> int \<times> bool" where
  "phraseLoop ttl smry [] st = st"
| "phraseLoop ttl smry (ph # phs) (sc, phraseHit) =
     (let phLow = trim (toLowerCase ph);
          st1 = (if includesStr ttl phLow then (sc + 8, True) else (sc, phraseHit));
          st2 = (if includesStr smry phLow then (fst st1 + 4, True) else st1)
      in phraseLoop ttl smry phs st2)"

text \<open>The test of one query token against a text and its token list.\<close>

definition tokenHit :: "string \<Rightarrow> string list \<Rightarrow> string \<Rightarrow> bool" where
  "tokenHit text textTokens t =
     (reWordTest t text \<or> (4 \<le> length t \<and> tokensContainStem textTokens t))"

fun tokenLoop ::
  "string \<Rightarrow> string \<Rightarrow> string list \<Rightarrow> string list \<Rightarrow> string list \<Rightarrow> int \<times> nat \<Rightarrow> int \<times> nat" where
  "tokenLoop ttl smry titleTokens summaryTokens [] st = st"
| "tokenLoop ttl smry titleTokens summaryTokens (t # ts) (sc, titleTokenHits) =
     (let inTitle = tokenHit ttl titleTokens t;
          inSummary = tokenHit smry summaryTokens t;
          st1 = (if inTitle then (sc + 2, titleTokenHits + 1) else (sc, titleTokenHits));
          st2 = (if inSummary then (fst st1 + 1, snd st1) else st1)
      in tokenLoop ttl smry titleTokens summaryTokens ts st2)"

text \<open>
  The state of \<open>headlineSearchScore\<close> just before its threshold: the score with the
  all-tokens bonus, \<open>phraseHit\<close> and \<open>titleTokenHits\<close>.
\<close>

definition scoreState :: "Headline \<Rightarrow> QueryParts \<Rightarrow> int \<times> bool \<times> nat" where
  "scoreState h qparts =
     (let ttl = toLowerCase (title h);
          smry = toLowerCase (summary h);
          titleTokens = tokensFromText ttl;
          summaryTokens = tokensFromText smry;
          st1 = phraseLoop ttl smry (phrases qparts) (0, False);
          st2 = tokenLoop ttl smry titleTokens summaryTokens (tokens qparts) (fst st1, 0);
          sc = (if length (tokens qparts) \<le> snd st2 \<and> 0 < length (tokens qparts)
                then fst st2 + 2 else fst st2)
      in (sc, snd st1, snd st2))"

definition headlineSearchScore :: "Headline \<Rightarrow> QueryParts \<Rightarrow> int" where
  "headlineSearchScore h qparts =
     (case scoreState h qparts of
        (sc, phraseHit, titleTokenHits) \<Rightarrow>
          let pass = (phraseHit \<or> 2 \<le> titleTokenHits \<or> 5 \<le> sc)
          in if pass then sc else 0)"

section \<open>Headline search\<close>

fun anchorLoop :: "string list \<Rightarrow> string list \<Rightarrow> bool" where
  "anchorLoop combinedTokens [] = False"
| "anchorLoop combinedTokens (a # as) =
     (if tokensContainStem combinedTokens (toLowerCase a) then True
      else anchorLoop combinedTokens as)"

fun excludeLoop :: "string list \<Rightarrow> bool \<Rightarrow> string list \<Rightarrow> int \<Rightarrow> int" where
  "excludeLoop combinedTokens hasAnchor [] s = s"
| "excludeLoop combinedTokens hasAnchor (ex # exs) s =
     (if tokensContainStem combinedTokens (toLowerCase ex)
      then (if \<not> hasAnchor then 0 else s)
      else excludeLoop combinedTokens hasAnchor exs s)"

text \<open>The cross-region block of the loop body of \<open>searchHeadlines\<close>.\<close>

definition crossRegion :: "QueryParts \<Rightarrow> Headline \<Rightarrow> int \<Rightarrow> int" where
  "crossRegion qparts item s =
     (case excludeTokens qparts of None \<Rightarrow> s
      | Some exs \<Rightarrow>
        if 0 < s \<and> length exs \<noteq> 0 then
          let combinedTokens = tokensFromText (title item @ '' '' @ summary item);
              hasAnchor = (case anchorTokens qparts of None \<Rightarrow> False
                           | Some ancs \<Rightarrow> length ancs \<noteq> 0 \<and> anchorLoop combinedTokens ancs)
          in excludeLoop combinedTokens hasAnchor exs s
        else s)"

definition itemScore :: "QueryParts \<Rightarrow> Headline \<Rightarrow> int" where
  "itemScore qparts item = crossRegion qparts item (headlineSearchScore item qparts)"

fun scoreLoop :: "QueryParts \<Rightarrow> nat \<Rightarrow> Headline list \<Rightarrow> ScoredCandidate list" where
  "scoreLoop qparts i [] = []"
| "scoreLoop qparts i (item # items) =
     (let s = itemScore qparts item
      in if 0 < s then \<lparr>index = i, score = s\<rparr> # scoreLoop qparts (Suc i) items
         else scoreLoop qparts (Suc i) items)"

text \<open>
  \<open>xs.slice(0, limit)\<close> for an integer \<open>limit\<close>: a negative \<open>limit\<close> counts from the end.
\<close>

definition sliceTo :: "'a list \<Rightarrow> int \<Rightarrow> 'a list" where
  "sliceTo xs limit =
     (if limit < 0 then take (nat (int (length xs) + limit)) xs else take (nat limit) xs)"

text \<open>
  \<open>scored.sort((a, b) => b.score - a.score)\<close>: \<open>Array.prototype.sort\<close> is a stable sort, here
  by descending score, which is the stable insertion sort \<^const>\<open>sort_key\<close> on the negated score.
\<close>

definition searchHeadlines ::
  "DomainTerms option \<Rightarrow> string \<Rightarrow> string \<Rightarrow> Headline list \<Rightarrow> int \<Rightarrow> ScoredCandidate list" where
  "searchHeadlines domainTerms feedGroup query items limit =
     (let qparts = expandQueryWithDomain domainTerms feedGroup (parseQueryParts query) query
      in if length (phrases qparts) = 0 \<and> length (tokens qparts) = 0 then []
         else sliceTo (sort_key (\<lambda>c. - score c) (scoreLoop qparts 0 items)) limit)"

section \<open>Selection by mentions\<close>

text \<open>
  \<open>new URL(u)\<close> is the platform's parser; \<open>parseUrl u\<close> stands for the serialisation of the
  parsed URL after its fragment and query have been cleared, and is \<open>None\<close> where the
  constructor throws.
\<close>

definition stripSlash :: "string \<Rightarrow> string" where
  "stripSlash s = (if suffix ''/'' s then sliceOff s 1 else s)"

definition normalizeUrl :: "(string \<Rightarrow> string option) \<Rightarrow> string \<Rightarrow> string" where
  "normalizeUrl parseUrl u =
     (case parseUrl u of
        Some s \<Rightarrow> toLowerCase (stripSlash s)
      | None \<Rightarrow> if u = [] then [] else toLowerCase (stripSlash (trim u)))"

definition urlsEqual :: "(string \<Rightarrow> string option) \<Rightarrow> string \<Rightarrow> string \<Rightarrow> bool" where
  "urlsEqual parseUrl a b = (normalizeUrl parseUrl a = normalizeUrl parseUrl b)"

text \<open>\<open>xs.findIndex(P)\<close>: the first position where \<open>P\<close> holds, \<open>-1\<close> when there is none.\<close>

fun findIndexFrom :: "('a \<Rightarrow> bool) \<Rightarrow> int \<Rightarrow> 'a list \<Rightarrow> int" where
  "findIndexFrom P i [] = - 1"
| "findIndexFrom P i (x # xs) = (if P x then i else findIndexFrom P (i + 1) xs)"

definition findIndex :: "('a \<Rightarrow> bool) \<Rightarrow> 'a list \<Rightarrow> int" where
  "findIndex P xs = findIndexFrom P 0 xs"

text \<open>
  A mention: an object (with the members \<open>url\<close>, \<open>index\<close> and \<open>title\<close>, each of them
  optional; \<open>index\<close> is present when it is an integer), a string, an integer, or
  any other value.
\<close>

datatype Mention =
  MObject (m_url: "string option") (m_index: "int option") (m_title: "string option")
| MString string
| MInteger int
| MOther

definition resolveMention :: "(string \<Rightarrow> string option) \<Rightarrow> Headline list \<Rightarrow> Mention \<Rightarrow> int" where
  "resolveMention parseUrl headlines m =
     (case m of
        MObject url ind ttl \<Rightarrow>
          let i1 = (case url of None \<Rightarrow> - 1
                    | Some u \<Rightarrow> if u \<noteq> [] then findIndex (\<lambda>h. urlsEqual parseUrl (link h) u) headlines
                                else - 1);
              i2 = (case ind of None \<Rightarrow> i1
                    | Some k \<Rightarrow> if i1 < 0 \<and> 0 \<le> k \<and> k < int (length headlines) then k else i1);
              i3 = (case ttl of None \<Rightarrow> i2
                    | Some t \<Rightarrow>
                      if i2 < 0 \<and> t \<noteq> [] then
                        (let tnorm = toLowerCase (trim t);
                             j = findIndex (\<lambda>h. toLowerCase (trim (title h)) = tnorm) headlines
                         in if j < 0
                            then findIndex (\<lambda>h. includesStr (toLowerCase (title h)) tnorm
                                                \<and> 8 \<le> length tnorm) headlines
                            else j)
                      else i2)
          in i3
      | MString s \<Rightarrow>
          if prefix ''http'' s then findIndex (\<lambda>h. urlsEqual parseUrl (link h) s) headlines
          else (let tnorm = toLowerCase (trim s)
                in findIndex (\<lambda>h. toLowerCase (trim (title h)) = tnorm) headlines)
      | MInteger k \<Rightarrow> if 0 \<le> k \<and> k < int (length headlines) then k else - 1
      | MOther \<Rightarrow> - 1)"

text \<open>
  The loop over the mentions. The state is the set \<open>seen\<close> in insertion order (the
  checkboxes the function has ticked) and the counter \<open>cnt\<close> (\<open>count\<close> in the source); \<open>hasBox idx\<close> says whether the page
  has a checkbox for headline \<open>idx\<close>.
\<close>

fun mentionLoop ::
  "(string \<Rightarrow> string option) \<Rightarrow> Headline list \<Rightarrow> (int \<Rightarrow> bool) \<Rightarrow> int list option \<Rightarrow>
   Mention list \<Rightarrow> int list \<times> nat \<Rightarrow> int list \<times> nat" where
  "mentionLoop parseUrl headlines hasBox allowed [] st = st"
| "mentionLoop parseUrl headlines hasBox allowed (m # ms) (seen, cnt) =
     (let idx = resolveMention parseUrl headlines m
      in if 0 \<le> idx \<and> idx \<notin> set seen
            \<and> (case allowed of None \<Rightarrow> True | Some a \<Rightarrow> idx \<in> set a) \<and> hasBox idx
         then mentionLoop parseUrl headlines hasBox allowed ms (seen @ [idx], cnt + 1)
         else mentionLoop parseUrl headlines hasBox allowed ms (seen, cnt))"

definition autoSelectByMentions ::
  "(string \<Rightarrow> string option) \<Rightarrow> Headline list \<Rightarrow> (int \<Rightarrow> bool) \<Rightarrow> Mention list \<Rightarrow>
   int list option \<Rightarrow> int list \<times> nat" where
  "autoSelectByMentions parseUrl headlines hasBox mentions allowedIdxs =
     mentionLoop parseUrl headlines hasBox allowedIdxs mentions ([], 0)"

section \<open>Video candidates\<close>

record VideoCandidate =
  v_title :: string
  srcUrl :: "string option"
  pageUrl :: "string option"
  sourceType :: string

definition videoTypeBucket :: "VideoCandidate \<Rightarrow> string" where
  "videoTypeBucket v =
     (let t = toLowerCase (sourceType v)
      in if t = ''youtube'' \<or> t = ''vimeo'' then ''platform''
         else if t = ''mp4'' \<or> t = ''webm'' then ''direct''
         else if t = ''m3u8'' then ''stream''
         else if t = ''embed'' then ''embed''
         else ''embed'')"

text \<open>The controls of the page that \<open>applyVideoFilters\<close> reads, and the links of the
  selected headlines.\<close>

record VideoFilters =
  playableOnly :: bool
  uniquePerPage :: bool
  fromSelectedOnly :: bool
  typeVal :: string
  vidSearch :: string
  selectedUrls :: "string list"

definition orEmpty :: "string option \<Rightarrow> string" where
  "orEmpty x = (case x of None \<Rightarrow> [] | Some s \<Rightarrow> s)"

definition typeFilter :: "string \<Rightarrow> VideoCandidate \<Rightarrow> bool" where
  "typeFilter tv v =
     (let b = videoTypeBucket v
      in if tv = ''platform'' then b = ''platform''
         else if tv = ''direct'' then b = ''direct''
         else if tv = ''stream'' then b = ''stream''
         else if tv = ''embed'' then b = ''embed''
         else True)"

definition playableFilter :: "VideoCandidate \<Rightarrow> bool" where
  "playableFilter v =
     (let b = videoTypeBucket v in b = ''platform'' \<or> b = ''direct'' \<or> b = ''stream'')"

text \<open>
  \<open>hostOf x\<close> stands for \<open>new URL(x, window.location.href).hostname\<close>, \<open>None\<close> where the
  constructor throws.
\<close>

definition keywordFilter :: "(string option \<Rightarrow> string option) \<Rightarrow> string \<Rightarrow> VideoCandidate \<Rightarrow> bool" where
  "keywordFilter hostOf q v =
     (let ttl = toLowerCase (v_title v);
          src = toLowerCase (orEmpty (srcUrl v));
          page = toLowerCase (orEmpty (pageUrl v));
          srcHost = (case hostOf (srcUrl v) of None \<Rightarrow> [] | Some h \<Rightarrow> toLowerCase h);
          pageHost = (case hostOf (pageUrl v) of None \<Rightarrow> [] | Some h \<Rightarrow> toLowerCase h)
      in includesStr ttl q \<or> includesStr src q \<or> includesStr page q
         \<or> includesStr srcHost q \<or> includesStr pageHost q)"

definition selectedFilter :: "string list \<Rightarrow> VideoCandidate \<Rightarrow> bool" where
  "selectedFilter selected v = (case pageUrl v of None \<Rightarrow> False | Some u \<Rightarrow> u \<in> set selected)"

definition rank :: "VideoCandidate \<Rightarrow> int" where
  "rank v =
     (let b = videoTypeBucket v
      in if b = ''platform'' then 3
         else if b = ''direct'' then 3
         else if b = ''stream'' then 2
         else 1)"

text \<open>\<open>v.pageUrl || v.srcUrl\<close>: an absent or empty page URL gives way to the source URL.\<close>

definition pageKey :: "VideoCandidate \<Rightarrow> string option" where
  "pageKey v = (case pageUrl v of None \<Rightarrow> srcUrl v | Some u \<Rightarrow> if u = [] then srcUrl v else Some u)"

text \<open>
  A JavaScript \<open>Map\<close> is a list of entries in insertion order; \<open>mapSet\<close> is
  \<open>Map.prototype.set\<close>, which keeps the place of a key that is already there.
\<close>

fun mapSet :: "'k \<Rightarrow> 'v \<Rightarrow> ('k \<times> 'v) list \<Rightarrow> ('k \<times> 'v) list" where
  "mapSet k v [] = [(k, v)]"
| "mapSet k v (e # es) = (if fst e = k then (k, v) # es else e # mapSet k v es)"

fun bestLoop ::
  "VideoCandidate list \<Rightarrow> (string option \<times> VideoCandidate) list \<Rightarrow>
   (string option \<times> VideoCandidate) list" where
  "bestLoop [] best = best"
| "bestLoop (v # vs) best =
     (let key = pageKey v
      in case map_of best key of
           None \<Rightarrow> bestLoop vs (mapSet key v best)
         | Some cur \<Rightarrow>
             if rank cur < rank v then bestLoop vs (mapSet key v best) else bestLoop vs best)"

definition uniqueByPage :: "VideoCandidate list \<Rightarrow> VideoCandidate list" where
  "uniqueByPage out = map snd (bestLoop out [])"

text \<open>One step of the loop of the per-page block.\<close>

definition bestStep ::
  "VideoCandidate \<Rightarrow> (string option \<times> VideoCandidate) list \<Rightarrow> (string option \<times> VideoCandidate) list" where
  "bestStep v best =
     (case map_of best (pageKey v) of
        None \<Rightarrow> mapSet (pageKey v) v best
      | Some cur \<Rightarrow> if rank cur < rank v then mapSet (pageKey v) v best else best)"

text \<open>\<open>v\<close> is the entry for the key \<open>k\<close> after the candidates \<open>seen\<close>: the first of the
  highest rank among those of the key.\<close>

definition firstBest :: "VideoCandidate list \<Rightarrow> string option \<Rightarrow> VideoCandidate \<Rightarrow> bool" where
  "firstBest seen k v =
     (v \<in> set seen \<and> pageKey v = k \<and> (\<forall>u\<in>set seen. pageKey u = k \<longrightarrow> rank u \<le> rank v)
      \<and> find (\<lambda>u. pageKey u = k \<and> rank u = rank v) seen = Some v)"

definition bestInv :: "VideoCandidate list \<Rightarrow> (string option \<times> VideoCandidate) list \<Rightarrow> bool" where
  "bestInv seen best =
     (distinct (map fst best) \<and> fst ` set best = pageKey ` set seen
      \<and> (\<forall>k v. map_of best k = Some v \<longrightarrow> firstBest seen k v))"

definition sortKey :: "VideoCandidate \<Rightarrow> string" where
  "sortKey v =
     (let b = videoTypeBucket v;
          prio = (if b = ''platform'' then ''0'' else if b = ''direct'' then ''1''
                  else if b = ''stream'' then ''2'' else ''3'')
      in prio @ ''|'' @ toLowerCase (v_title v))"

text \<open>
  \<open>localeCompare\<close> is the platform's collation; \<open>collate\<close> stands for its collation key, so
  that \<open>a.localeCompare(b)\<close> is the comparison of \<open>collate a\<close> with \<open>collate b\<close> in a linear
  order, and the stable \<open>out.sort\<close> is \<^const>\<open>sort_key\<close> on that key. \<open>filterStage\<close> is the
  four filter blocks at the start of \<open>applyVideoFilters\<close>.
\<close>

definition filterStage ::
  "(string option \<Rightarrow> string option) \<Rightarrow> VideoFilters \<Rightarrow> VideoCandidate list \<Rightarrow> VideoCandidate list" where
  "filterStage hostOf cfg all =
     (let q = trim (toLowerCase (vidSearch cfg));
          out1 = (if typeVal cfg \<noteq> ''all'' then filter (typeFilter (typeVal cfg)) all else all);
          out2 = (if playableOnly cfg then filter playableFilter out1 else out1);
          out3 = (if q \<noteq> [] then filter (keywordFilter hostOf q) out2 else out2);
          out4 = (if fromSelectedOnly cfg then filter (selectedFilter (selectedUrls cfg)) out3 else out3)
      in out4)"

definition applyVideoFilters ::
  "(string option \<Rightarrow> string option) \<Rightarrow> (string \<Rightarrow> 'c::linorder) \<Rightarrow> VideoFilters \<Rightarrow>
   VideoCandidate list \<Rightarrow> VideoCandidate list" where
  "applyVideoFilters hostOf collate cfg all =
     (let out4 = filterStage hostOf cfg all;
          out5 = (if uniquePerPage cfg then uniqueByPage out4 else out4)
      in sort_key (\<lambda>v. collate (sortKey v)) out5)"

section \<open>The scoring rules as the specification states them\<close>

text \<open>
  The phrase pass, the token pass and the bonus written as counts, for comparison with
  the loops of \<open>headlineSearchScore\<close>: 8 for every phrase found in the title, 4 for every
  phrase found in the summary, 2 for every token that hits the title, 1 for every token
  that hits the summary, and 2 more when every token hits the title and there is a token.
\<close>

definition spec_phraseInTitle :: "Headline \<Rightarrow> string \<Rightarrow> bool" where
  "spec_phraseInTitle h ph = includesStr (toLowerCase (title h)) (trim (toLowerCase ph))"

definition spec_phraseInSummary :: "Headline \<Rightarrow> string \<Rightarrow> bool" where
  "spec_phraseInSummary h ph = includesStr (toLowerCase (summary h)) (trim (toLowerCase ph))"

definition spec_tokenInTitle :: "Headline \<Rightarrow> string \<Rightarrow> bool" where
  "spec_tokenInTitle h t =
     tokenHit (toLowerCase (title h)) (tokensFromText (toLowerCase (title h))) t"

definition spec_tokenInSummary :: "Headline \<Rightarrow> string \<Rightarrow> bool" where
  "spec_tokenInSummary h t =
     tokenHit (toLowerCase (summary h)) (tokensFromText (toLowerCase (summary h))) t"

definition spec_phraseHit :: "Headline \<Rightarrow> QueryParts \<Rightarrow> bool" where
  "spec_phraseHit h qparts =
     (\<exists>ph\<in>set (phrases qparts). spec_phraseInTitle h ph \<or> spec_phraseInSummary h ph)"

definition spec_titleTokenHits :: "Headline \<Rightarrow> QueryParts \<Rightarrow> nat" where
  "spec_titleTokenHits h qparts = length (filter (spec_tokenInTitle h) (tokens qparts))"

definition spec_rawScore :: "Headline \<Rightarrow> QueryParts \<Rightarrow> int" where
  "spec_rawScore h qparts =
     8 * int (length (filter (spec_phraseInTitle h) (phrases qparts)))
     + 4 * int (length (filter (spec_phraseInSummary h) (phrases qparts)))
     + 2 * int (spec_titleTokenHits h qparts)
     + int (length (filter (spec_tokenInSummary h) (tokens qparts)))
     + (if spec_titleTokenHits h qparts = length (tokens qparts) \<and> tokens qparts \<noteq> [] then 2 else 0)"

text \<open>
  Every headline with its position and its score after the cross-region check, in the
  order of the headline list.
\<close>

definition spec_candidates ::
  "DomainTerms option \<Rightarrow> string \<Rightarrow> string \<Rightarrow> Headline list \<Rightarrow> ScoredCandidate list" where
  "spec_candidates domainTerms feedGroup query items =
     map (\<lambda>(i, h). \<lparr>index = i,
            score = itemScore (expandQueryWithDomain domainTerms feedGroup (parseQueryParts query) query) h\<rparr>)
       (enumerate 0 items)"

section \<open>Term ingestion as the specification states it\<close>

text \<open>
  The ingestion rule on the pair of phrases and tokens: the term is trimmed; a term with a
  space is a phrase, added unless a phrase with the same lower-case form is there; any
  other term is a token, added unless a token with the same lower-case form is there, or
  it is a stop word, or it is shorter than 2 characters.
\<close>

definition spec_addTerm :: "string \<Rightarrow> string list \<times> string list \<Rightarrow> string list \<times> string list" where
  "spec_addTerm t pt =
     (let s = trim t; phs = fst pt; toks = snd pt
      in if s = [] then pt
         else if CHR '' '' \<in> set s
         then (if toLowerCase s \<in> toLowerCase ` set phs then pt else (phs @ [s], toks))
         else (if toLowerCase s \<in> toLowerCase ` set toks \<or> toLowerCase s \<in> set STOPWORDS
                  \<or> length s < 2
               then pt else (phs, toks @ [s])))"

text \<open>The terms that a region map lists for the given regions, region by region.\<close>

definition regionTerms :: "string list \<Rightarrow> regionMap option \<Rightarrow> string list" where
  "regionTerms rs obj =
     concat (map (\<lambda>r. case regionArray obj r of None \<Rightarrow> [] | Some arr \<Rightarrow> arr) rs)"

text \<open>All regions of the party, institution and people maps, each once, in order of appearance.\<close>

definition allRegionsOf :: "Politics \<Rightarrow> string list" where
  "allRegionsOf p =
     fold setAdd (objectKeys (parties p) @ objectKeys (institutions p) @ objectKeys (people p)) []"

definition targetRegionsOf :: "Politics \<Rightarrow> string list \<Rightarrow> string list" where
  "targetRegionsOf p regions = (if regions \<noteq> [] then regions else allRegionsOf p)"

text \<open>
  Two orders of ingestion: the one the specification states (synonyms and related terms,
  then the lists of the target regions) and the one of the source (synonyms, the lists
  of the target regions, then related terms).
\<close>

definition spec_termOrder :: "Politics \<Rightarrow> string list \<Rightarrow> string list" where
  "spec_termOrder p targetRegions =
     synonyms p @ related_terms p
     @ regionTerms targetRegions (parties p) @ regionTerms targetRegions (institutions p)
     @ regionTerms targetRegions (people p)"

definition source_termOrder :: "Politics \<Rightarrow> string list \<Rightarrow> string list" where
  "source_termOrder p targetRegions =
     synonyms p
     @ regionTerms targetRegions (parties p) @ regionTerms targetRegions (institutions p)
     @ regionTerms targetRegions (people p)
     @ related_terms p"

text \<open>The two members of a \<open>QueryParts\<close> value that ingestion changes.\<close>

definition phrasesTokens :: "QueryParts \<Rightarrow> string list \<times> string list" where
  "phrasesTokens out = (phrases out, tokens out)"

text \<open>The conjunction of the filters that the configuration switches on.\<close>

definition passesFilters ::
  "(string option \<Rightarrow> string option) \<Rightarrow> VideoFilters \<Rightarrow> VideoCandidate \<Rightarrow> bool" where
  "passesFilters hostOf cfg v =
     ((typeVal cfg \<noteq> ''all'' \<longrightarrow> typeFilter (typeVal cfg) v)
      \<and> (playableOnly cfg \<longrightarrow> playableFilter v)
      \<and> (trim (toLowerCase (vidSearch cfg)) \<noteq> [] \<longrightarrow>
           keywordFilter hostOf (trim (toLowerCase (vidSearch cfg))) v)
      \<and> (fromSelectedOnly cfg \<longrightarrow> selectedFilter (selectedUrls cfg) v))"

section \<open>Stem containment\<close>

lemma stemLoop_iff:
  "stemLoop q toks \<longleftrightarrow>
     (\<exists>t\<in>set toks. simpleStem t = q
        \<or> (prefix q (simpleStem t) \<and> int (length (simpleStem t)) - int (length q) \<le> 3)
        \<or> (prefix (simpleStem t) q \<and> int (length q) - int (length (simpleStem t)) \<le> 2))"
  by (induction toks) (auto simp: Let_def)

lemma stem_elections: "simpleStem ''elections'' = ''election''"
  by code_simp

lemma stem_election: "simpleStem ''election'' = ''election''"
  by code_simp

text \<open>
  Claim C6. \<open>tokensContainStem tokens queryToken\<close> is true exactly when some token \<open>t\<close> of
  \<open>tokens\<close> has the stem of \<open>queryToken\<close>, or the query stem is a prefix of the stem of \<open>t\<close>
  and at most 3 characters shorter, or the stem of \<open>t\<close> is a prefix of the query stem and
  at most 2 characters shorter. The stems of "elections" and "election" are equal, so
  \<open>tokensContainStem ["elections"] "election"\<close> is true.
\<close>

theorem tokensContainStem_iff:
  "(tokensContainStem toks queryToken \<longleftrightarrow>
     (\<exists>t\<in>set toks. simpleStem queryToken = simpleStem t
        \<or> (prefix (simpleStem queryToken) (simpleStem t)
            \<and> int (length (simpleStem t)) - int (length (simpleStem queryToken)) \<le> 3)
        \<or> (prefix (simpleStem t) (simpleStem queryToken)
            \<and> int (length (simpleStem queryToken)) - int (length (simpleStem t)) \<le> 2)))
   \<and> simpleStem ''elections'' = simpleStem ''election''
   \<and> tokensContainStem [''elections''] ''election''"
proof (intro conjI)
  show "tokensContainStem toks queryToken \<longleftrightarrow>
     (\<exists>t\<in>set toks. simpleStem queryToken = simpleStem t
        \<or> (prefix (simpleStem queryToken) (simpleStem t)
            \<and> int (length (simpleStem t)) - int (length (simpleStem queryToken)) \<le> 3)
        \<or> (prefix (simpleStem t) (simpleStem queryToken)
            \<and> int (length (simpleStem queryToken)) - int (length (simpleStem t)) \<le> 2))"
    unfolding tokensContainStem_def stemLoop_iff by (rule bex_cong) auto
  show "simpleStem ''elections'' = simpleStem ''election''"
    by (simp only: stem_elections stem_election)
  show "tokensContainStem [''elections''] ''election''"
    unfolding tokensContainStem_def by (simp add: stem_elections stem_election)
qed

theorem tokensContainStem_iff_witness:
  "tokensContainStem [''voting'', ''parliamentary''] ''parliament''
   \<and> \<not> tokensContainStem [''voting''] ''parliament''"
  using tokensContainStem_iff [of "[''voting'', ''parliamentary'']" "''parliament''"]
        tokensContainStem_iff [of "[''voting'']" "''parliament''"]
  by code_simp

section \<open>The scorer and its gate\<close>

lemma phraseLoop_counts:
  "phraseLoop (toLowerCase (title h)) (toLowerCase (summary h)) phs (sc, hit) =
     (sc + 8 * int (length (filter (spec_phraseInTitle h) phs))
         + 4 * int (length (filter (spec_phraseInSummary h) phs)),
      hit \<or> (\<exists>ph\<in>set phs. spec_phraseInTitle h ph \<or> spec_phraseInSummary h ph))"
  by (induction phs arbitrary: sc hit)
     (auto simp: Let_def spec_phraseInTitle_def spec_phraseInSummary_def)

lemma tokenLoop_counts:
  "tokenLoop (toLowerCase (title h)) (toLowerCase (summary h))
      (tokensFromText (toLowerCase (title h))) (tokensFromText (toLowerCase (summary h))) ts (sc, n) =
     (sc + 2 * int (length (filter (spec_tokenInTitle h) ts))
         + int (length (filter (spec_tokenInSummary h) ts)),
      n + length (filter (spec_tokenInTitle h) ts))"
  by (induction ts arbitrary: sc n)
     (auto simp: Let_def spec_tokenInTitle_def spec_tokenInSummary_def)

lemma all_hit_iff:
  "length ts \<le> length (filter P ts) \<longleftrightarrow> length (filter P ts) = length ts"
  using length_filter_le [of P ts] by arith

lemma scoreState_spec:
  "scoreState h qparts = (spec_rawScore h qparts, spec_phraseHit h qparts, spec_titleTokenHits h qparts)"
  unfolding scoreState_def Let_def
  by (simp add: phraseLoop_counts tokenLoop_counts spec_rawScore_def spec_phraseHit_def
        spec_titleTokenHits_def all_hit_iff)

lemma headlineSearchScore_spec:
  "headlineSearchScore h qparts =
     (if spec_phraseHit h qparts \<or> 2 \<le> spec_titleTokenHits h qparts \<or> 5 \<le> spec_rawScore h qparts
      then spec_rawScore h qparts else 0)"
  by (simp add: headlineSearchScore_def scoreState_spec)

lemma parse_election:
  "parseQueryParts ''election'' =
     \<lparr>phrases = [], tokens = [''election''], excludeTokens = None, anchorTokens = None\<rparr>"
  by code_simp

lemma title_hit_election:
  "tokenHit (toLowerCase ''UK Prime Minister announces election'')
     (tokensFromText (toLowerCase ''UK Prime Minister announces election'')) ''election''"
  by code_simp

lemma no_word_polls:
  "\<not> reWordTest ''election'' (toLowerCase ''Voters head to the polls'')"
  by code_simp

lemma no_stem_polls:
  "\<not> tokensContainStem (tokensFromText (toLowerCase ''Voters head to the polls'')) ''election''"
  by code_simp

lemma electio_not_substring: "\<not> includesStr (toLowerCase ''electio'') ''election''"
  by code_simp

lemma electio_no_word: "\<not> reWordTest ''election'' (toLowerCase ''electio'')"
  by code_simp

lemma electio_stem:
  "tokensContainStem (tokensFromText (toLowerCase ''electio'')) ''election''"
  by code_simp

lemma election_example:
  "spec_rawScore \<lparr>title = ''UK Prime Minister announces election'', summary = smry,
       source = src, link = lnk\<rparr> (parseQueryParts ''election'')
     = (if reWordTest ''election'' (toLowerCase smry)
           \<or> tokensContainStem (tokensFromText (toLowerCase smry)) ''election'' then 5 else 4)
   \<and> headlineSearchScore \<lparr>title = ''UK Prime Minister announces election'', summary = smry,
       source = src, link = lnk\<rparr> (parseQueryParts ''election'')
     = (if reWordTest ''election'' (toLowerCase smry)
           \<or> tokensContainStem (tokensFromText (toLowerCase smry)) ''election'' then 5 else 0)"
proof -
  let ?h = "\<lparr>title = ''UK Prime Minister announces election'', summary = smry,
             source = src, link = lnk\<rparr>"
  let ?hit = "reWordTest ''election'' (toLowerCase smry)
           \<or> tokensContainStem (tokensFromText (toLowerCase smry)) ''election''"
  have t: "spec_tokenInTitle ?h ''election''"
    unfolding spec_tokenInTitle_def using title_hit_election by simp
  have s: "spec_tokenInSummary ?h ''election'' = ?hit"
    by (simp add: spec_tokenInSummary_def tokenHit_def)
  have raw: "spec_rawScore ?h (parseQueryParts ''election'') = (if ?hit then 5 else 4)"
    by (simp add: parse_election spec_rawScore_def spec_titleTokenHits_def t s)
  have hits: "spec_titleTokenHits ?h (parseQueryParts ''election'') = 1"
    by (simp add: parse_election spec_titleTokenHits_def t)
  have ph: "\<not> spec_phraseHit ?h (parseQueryParts ''election'')"
    by (simp add: parse_election spec_phraseHit_def)
  have "headlineSearchScore ?h (parseQueryParts ''election'') = (if ?hit then 5 else 0)"
    by (simp add: headlineSearchScore_spec raw hits ph)
  with raw show ?thesis by simp
qed

text \<open>
  Claim C2, as stated, fails in its example: the summary "electio" does not contain the
  token "election", yet the stem test of the token pass counts it as a summary hit (its
  stem is a prefix of the query stem, one character shorter), so the raw score is 5 and
  the gate lets it through.
\<close>

theorem summary_stem_match_counterexample:
  "\<not> includesStr (toLowerCase ''electio'') ''election''
   \<and> spec_rawScore \<lparr>title = ''UK Prime Minister announces election'', summary = ''electio'',
        source = ''bbc'', link = ''http://x.com/a''\<rparr> (parseQueryParts ''election'') = 5
   \<and> headlineSearchScore \<lparr>title = ''UK Prime Minister announces election'', summary = ''electio'',
        source = ''bbc'', link = ''http://x.com/a''\<rparr> (parseQueryParts ''election'') = 5"
  using election_example [of "''electio''" "''bbc''" "''http://x.com/a''"]
  by (simp add: electio_not_substring electio_stem)

text \<open>
  Claim C2, amended. The score that \<open>headlineSearchScore\<close> returns is the raw score when a
  phrase was found, or at least two query tokens hit the title, or the raw score is at
  least 5, and 0 otherwise. For the query "election" (one token, no phrase) and a headline
  with the title "UK Prime Minister announces election": when the summary has no
  whole-word occurrence of the token and none of its tokens stem-matches the token
  (\<open>tokensContainStem\<close> is false), the raw score is 4 (2 for the title hit, 2 for the bonus)
  and the returned score is 0; when the summary has such an occurrence or such a token,
  the raw score and the returned score are 5.
\<close>

theorem headlineSearchScore_gate:
  "headlineSearchScore h qparts =
     (if spec_phraseHit h qparts \<or> 2 \<le> spec_titleTokenHits h qparts \<or> 5 \<le> spec_rawScore h qparts
      then spec_rawScore h qparts else 0)
   \<and> (\<not> reWordTest ''election'' (toLowerCase smry)
        \<and> \<not> tokensContainStem (tokensFromText (toLowerCase smry)) ''election'' \<longrightarrow>
        spec_rawScore \<lparr>title = ''UK Prime Minister announces election'', summary = smry,
                       source = src, link = lnk\<rparr> (parseQueryParts ''election'') = 4
        \<and> headlineSearchScore \<lparr>title = ''UK Prime Minister announces election'', summary = smry,
                       source = src, link = lnk\<rparr> (parseQueryParts ''election'') = 0)
   \<and> (reWordTest ''election'' (toLowerCase smry)
        \<or> tokensContainStem (tokensFromText (toLowerCase smry)) ''election'' \<longrightarrow>
        spec_rawScore \<lparr>title = ''UK Prime Minister announces election'', summary = smry,
                       source = src, link = lnk\<rparr> (parseQueryParts ''election'') = 5
        \<and> headlineSearchScore \<lparr>title = ''UK Prime Minister announces election'', summary = smry,
                       source = src, link = lnk\<rparr> (parseQueryParts ''election'') = 5)"
  using election_example [of smry src lnk] headlineSearchScore_spec [of h qparts]
  by simp

theorem headlineSearchScore_gate_witness:
  "\<not> reWordTest ''election'' (toLowerCase ''Voters head to the polls'')
   \<and> \<not> tokensContainStem (tokensFromText (toLowerCase ''Voters head to the polls'')) ''election''
   \<and> spec_rawScore \<lparr>title = ''UK Prime Minister announces election'',
        summary = ''Voters head to the polls'', source = ''bbc'', link = ''http://x.com/a''\<rparr>
        (parseQueryParts ''election'') = 4
   \<and> headlineSearchScore \<lparr>title = ''UK Prime Minister announces election'',
        summary = ''Voters head to the polls'', source = ''bbc'', link = ''http://x.com/a''\<rparr>
        (parseQueryParts ''election'') = 0
   \<and> tokensContainStem (tokensFromText (toLowerCase ''electio'')) ''election''
   \<and> headlineSearchScore \<lparr>title = ''UK Prime Minister announces election'',
        summary = ''electio'', source = ''bbc'', link = ''http://x.com/a''\<rparr>
        (parseQueryParts ''election'') = 5"
  using headlineSearchScore_gate [of "\<lparr>title = ''x'', summary = ''y'', source = ''s'', link = ''l''\<rparr>"
          "parseQueryParts ''election''" "''Voters head to the polls''" "''bbc''" "''http://x.com/a''"]
        headlineSearchScore_gate [of "\<lparr>title = ''x'', summary = ''y'', source = ''s'', link = ''l''\<rparr>"
          "parseQueryParts ''election''" "''electio''" "''bbc''" "''http://x.com/a''"]
        no_word_polls no_stem_polls electio_stem
  by simp

section \<open>Scores of the search results\<close>

lemma spec_rawScore_phrase:
  assumes "spec_phraseHit h qparts"
  shows "4 \<le> spec_rawScore h qparts"
proof -
  let ?a = "int (length (filter (spec_phraseInTitle h) (phrases qparts)))"
  let ?b = "int (length (filter (spec_phraseInSummary h) (phrases qparts)))"
  from assms obtain ph where ph: "ph \<in> set (phrases qparts)"
    and hit: "spec_phraseInTitle h ph \<or> spec_phraseInSummary h ph"
    by (auto simp: spec_phraseHit_def)
  from hit ph have "filter (spec_phraseInTitle h) (phrases qparts) \<noteq> []
      \<or> filter (spec_phraseInSummary h) (phrases qparts) \<noteq> []"
    by (auto simp: filter_empty_conv)
  then have one: "1 \<le> ?a \<or> 1 \<le> ?b"
    by (auto simp: Suc_le_eq)
  have "8 * ?a + 4 * ?b \<le> spec_rawScore h qparts"
    unfolding spec_rawScore_def by simp
  with one show ?thesis by linarith
qed

lemma spec_rawScore_hits: "2 * int (spec_titleTokenHits h qparts) \<le> spec_rawScore h qparts"
  unfolding spec_rawScore_def by simp

lemma headlineSearchScore_range:
  "headlineSearchScore h qparts = 0 \<or> 4 \<le> headlineSearchScore h qparts"
  using spec_rawScore_phrase [of h qparts] spec_rawScore_hits [of h qparts]
  by (auto simp: headlineSearchScore_spec)

lemma excludeLoop_cases: "excludeLoop toks anc exs s = s \<or> excludeLoop toks anc exs s = 0"
  by (induction exs) auto

lemma crossRegion_cases: "crossRegion qparts item s = s \<or> crossRegion qparts item s = 0"
  using excludeLoop_cases
  by (auto simp: crossRegion_def Let_def split: option.splits)

lemma itemScore_range: "itemScore qparts item = 0 \<or> 4 \<le> itemScore qparts item"
  unfolding itemScore_def
  using crossRegion_cases [of qparts item "headlineSearchScore item qparts"]
        headlineSearchScore_range [of item qparts]
  by auto

lemma scoreLoop_filter:
  "scoreLoop qparts i items =
     filter (\<lambda>c. 0 < score c)
       (map (\<lambda>(j, h). \<lparr>index = j, score = itemScore qparts h\<rparr>) (enumerate i items))"
  by (induction items arbitrary: i) (auto simp: Let_def)

lemma scoreLoop_score:
  assumes "c \<in> set (scoreLoop qparts i items)"
  shows "4 \<le> score c"
proof -
  from assms obtain h where "score c = itemScore qparts h" and "0 < score c"
    by (auto simp: scoreLoop_filter)
  with itemScore_range [of qparts h] show ?thesis by auto
qed

lemma set_sliceTo: "set (sliceTo xs limit) \<subseteq> set xs"
  by (auto simp: sliceTo_def dest: in_set_takeD)

text \<open>
  Claim C10. Every candidate that \<open>searchHeadlines\<close> returns has a score of at least 4: a
  score passes the gate with a phrase hit (at least 4), with two title token hits (at
  least 4) or with a raw score of at least 5, and the cross-region check leaves a score
  as it is or sets it to 0.
\<close>

theorem searchHeadlines_score_ge_4:
  "c \<in> set (searchHeadlines domainTerms feedGroup query items limit) \<Longrightarrow> 4 \<le> score c"
proof -
  assume c: "c \<in> set (searchHeadlines domainTerms feedGroup query items limit)"
  let ?qp = "expandQueryWithDomain domainTerms feedGroup (parseQueryParts query) query"
  from c have "c \<in> set (sliceTo (sort_key (\<lambda>c. - score c) (scoreLoop ?qp 0 items)) limit)"
    by (auto simp: searchHeadlines_def Let_def split: if_splits)
  then have "c \<in> set (scoreLoop ?qp 0 items)"
    using set_sliceTo by fastforce
  then show ?thesis by (rule scoreLoop_score)
qed

theorem searchHeadlines_score_ge_4_witness:
  "\<lparr>index = 2, score = 7\<rparr> \<in> set (searchHeadlines None '''' ''prime minister''
      [\<lparr>title = ''Prime Minister wins vote'', summary = '''', source = ''a'', link = ''l1''\<rparr>,
       \<lparr>title = ''Weather'', summary = ''Rain'', source = ''b'', link = ''l2''\<rparr>,
       \<lparr>title = ''The minister, the prime one'', summary = ''prime'', source = ''b'', link = ''l3''\<rparr>]
      200)
   \<and> 4 \<le> score \<lparr>index = 2, score = 7\<rparr>"
proof -
  have m: "\<lparr>index = 2, score = 7\<rparr> \<in> set (searchHeadlines None '''' ''prime minister''
      [\<lparr>title = ''Prime Minister wins vote'', summary = '''', source = ''a'', link = ''l1''\<rparr>,
       \<lparr>title = ''Weather'', summary = ''Rain'', source = ''b'', link = ''l2''\<rparr>,
       \<lparr>title = ''The minister, the prime one'', summary = ''prime'', source = ''b'', link = ''l3''\<rparr>]
      200)"
    by code_simp
  from m searchHeadlines_score_ge_4 [OF m] show ?thesis by simp
qed

section \<open>Ranking of the search results\<close>

lemma no_tokens_score:
  "phrases qparts = [] \<Longrightarrow> tokens qparts = [] \<Longrightarrow> itemScore qparts item = 0"
  by (simp add: itemScore_def headlineSearchScore_spec spec_phraseHit_def spec_titleTokenHits_def
        spec_rawScore_def crossRegion_def split: option.splits)

lemma scoreLoop_candidates:
  "scoreLoop (expandQueryWithDomain domainTerms feedGroup (parseQueryParts query) query) 0 items =
     filter (\<lambda>c. 0 < score c) (spec_candidates domainTerms feedGroup query items)"
  by (simp add: scoreLoop_filter spec_candidates_def)

lemma candidates_none:
  assumes "phrases (expandQueryWithDomain domainTerms feedGroup (parseQueryParts query) query) = []"
    and "tokens (expandQueryWithDomain domainTerms feedGroup (parseQueryParts query) query) = []"
  shows "filter (\<lambda>c. 0 < score c) (spec_candidates domainTerms feedGroup query items) = []"
  using assms by (auto simp: spec_candidates_def filter_empty_conv no_tokens_score)

lemma index_candidates:
  "map index (spec_candidates domainTerms feedGroup query items) = [0..<length items]"
  using map_fst_enumerate [of 0 items]
  by (simp add: spec_candidates_def split_def comp_def)


lemma take_sliceTo: "0 \<le> limit \<Longrightarrow> sliceTo xs limit = take (nat limit) xs"
  by (simp add: sliceTo_def)

lemma descending_sort:
  "sorted_wrt (\<lambda>a b. score b \<le> score a) (sort_key (\<lambda>c. - score c) (xs :: ScoredCandidate list))"
  using sorted_sort_key [of "\<lambda>c. - score c" xs]
  by (simp add: sorted_map)

lemma stable_sort:
  "filter (\<lambda>c. score c = k) (sort_key (\<lambda>c. - score c) (xs :: ScoredCandidate list))
     = filter (\<lambda>c. score c = k) xs"
  using sort_key_stable [of "\<lambda>c. - score c" "- k" xs] by simp

text \<open>
  Claim C5. For a limit that is not negative, \<open>searchHeadlines\<close> returns the first \<open>limit\<close>
  elements of a list \<open>full\<close> that holds exactly the candidates with a positive score (each
  headline position with its score), in non-increasing order of score, and in which the
  candidates of any one score stand in the order of the headline list; the result has at
  most \<open>limit\<close> elements.
\<close>

theorem searchHeadlines_ranked:
  assumes "0 \<le> limit"
  shows "\<exists>full.
      searchHeadlines domainTerms feedGroup query items limit = take (nat limit) full
    \<and> mset full = mset (filter (\<lambda>c. 0 < score c) (spec_candidates domainTerms feedGroup query items))
    \<and> sorted_wrt (\<lambda>a b. score b \<le> score a) full
    \<and> (\<forall>k. filter (\<lambda>c. score c = k) full
           = filter (\<lambda>c. score c = k)
               (filter (\<lambda>c. 0 < score c) (spec_candidates domainTerms feedGroup query items)))
    \<and> map index (spec_candidates domainTerms feedGroup query items) = [0..<length items]
    \<and> int (length (searchHeadlines domainTerms feedGroup query items limit)) \<le> limit"
proof -
  let ?qp = "expandQueryWithDomain domainTerms feedGroup (parseQueryParts query) query"
  let ?pos = "filter (\<lambda>c. 0 < score c) (spec_candidates domainTerms feedGroup query items)"
  let ?full = "sort_key (\<lambda>c. - score c) ?pos"
  have res: "searchHeadlines domainTerms feedGroup query items limit = take (nat limit) ?full"
  proof (cases "phrases ?qp = [] \<and> tokens ?qp = []")
    case True
    then have "?pos = []" by (simp add: candidates_none)
    with True show ?thesis by (simp add: searchHeadlines_def)
  next
    case False
    then show ?thesis
      using assms by (auto simp: searchHeadlines_def scoreLoop_candidates take_sliceTo)
  qed
  have len: "int (length (searchHeadlines domainTerms feedGroup query items limit)) \<le> limit"
    using assms by (simp add: res)
  have "searchHeadlines domainTerms feedGroup query items limit = take (nat limit) ?full
    \<and> mset ?full = mset ?pos
    \<and> sorted_wrt (\<lambda>a b. score b \<le> score a) ?full
    \<and> (\<forall>k. filter (\<lambda>c. score c = k) ?full = filter (\<lambda>c. score c = k) ?pos)
    \<and> map index (spec_candidates domainTerms feedGroup query items) = [0..<length items]
    \<and> int (length (searchHeadlines domainTerms feedGroup query items limit)) \<le> limit"
    using res len by (simp add: descending_sort stable_sort index_candidates)
  then show ?thesis by blast
qed

theorem searchHeadlines_ranked_witness:
  "(0::int) \<le> 1
   \<and> searchHeadlines None '''' ''prime minister''
      [\<lparr>title = ''Prime Minister wins vote'', summary = '''', source = ''a'', link = ''l1''\<rparr>,
       \<lparr>title = ''Weather'', summary = ''Rain'', source = ''b'', link = ''l2''\<rparr>,
       \<lparr>title = ''The minister, the prime one'', summary = ''prime'', source = ''b'', link = ''l3''\<rparr>]
      1 = [\<lparr>index = 2, score = 7\<rparr>]
   \<and> int (length (searchHeadlines None '''' ''prime minister''
      [\<lparr>title = ''Prime Minister wins vote'', summary = '''', source = ''a'', link = ''l1''\<rparr>,
       \<lparr>title = ''Weather'', summary = ''Rain'', source = ''b'', link = ''l2''\<rparr>,
       \<lparr>title = ''The minister, the prime one'', summary = ''prime'', source = ''b'', link = ''l3''\<rparr>]
      1)) \<le> 1"
proof -
  have h: "(0::int) \<le> 1" by simp
  have e: "searchHeadlines None '''' ''prime minister''
      [\<lparr>title = ''Prime Minister wins vote'', summary = '''', source = ''a'', link = ''l1''\<rparr>,
       \<lparr>title = ''Weather'', summary = ''Rain'', source = ''b'', link = ''l2''\<rparr>,
       \<lparr>title = ''The minister, the prime one'', summary = ''prime'', source = ''b'', link = ''l3''\<rparr>]
      1 = [\<lparr>index = 2, score = 7\<rparr>]"
    by code_simp
  from searchHeadlines_ranked [OF h, where domainTerms = None and feedGroup = "''''"
      and query = "''prime minister''"
      and items = "[\<lparr>title = ''Prime Minister wins vote'', summary = '''', source = ''a'', link = ''l1''\<rparr>,
       \<lparr>title = ''Weather'', summary = ''Rain'', source = ''b'', link = ''l2''\<rparr>,
       \<lparr>title = ''The minister, the prime one'', summary = ''prime'', source = ''b'', link = ''l3''\<rparr>]"]
  have "int (length (searchHeadlines None '''' ''prime minister''
      [\<lparr>title = ''Prime Minister wins vote'', summary = '''', source = ''a'', link = ''l1''\<rparr>,
       \<lparr>title = ''Weather'', summary = ''Rain'', source = ''b'', link = ''l2''\<rparr>,
       \<lparr>title = ''The minister, the prime one'', summary = ''prime'', source = ''b'', link = ''l3''\<rparr>]
      1)) \<le> 1"
    by blast
  with h e show ?thesis by blast
qed

section \<open>Exclude tokens when no region is detected\<close>

lemma no_region_election: "detectRegionsFromContext '''' ''election'' = []"
  by code_simp

lemma trigger_election: "shouldUsePoliticsDomain ''election''"
  by code_simp

text \<open>
  Claim C1. With the politics domain triggered and no region detected from the query or
  the feed group, \<open>targetRegions\<close> is the list of all regions and the claim says that
  \<open>excludeTokens\<close> is empty. The code filters \<open>allRegions\<close> by the detected regions, not by
  \<open>targetRegions\<close>: for the query "election", no feed group, and a domain with the party
  "Labour" under the region "uk", the returned \<open>excludeTokens\<close> is \<open>["Labour"]\<close>.
\<close>

theorem excludeTokens_without_region:
  "detectRegionsFromContext '''' ''election'' = []
   \<and> shouldUsePoliticsDomain ''election''
   \<and> excludeTokens (expandQueryWithDomain
        (Some \<lparr>politics = Some \<lparr>synonyms = [], related_terms = [],
            parties = Some [(''uk'', [''Labour''])], institutions = None, people = None\<rparr>\<rparr>)
        '''' (parseQueryParts ''election'') ''election'') = Some [''Labour'']"
  by (simp add: expandQueryWithDomain_def Let_def no_region_election trigger_election
        objectKeys_def setAdd_def collectFromRegions_def regionArray_def)

section \<open>Domain expansion without a trigger\<close>

lemma no_trigger_weather: "\<not> shouldUsePoliticsDomain ''weather''"
  by code_simp

text \<open>
  Claim C4, as stated, fails: with domain terms present and a query that does not
  trigger the politics domain, a \<open>QueryParts\<close> value that carries exclude and anchor
  tokens is not returned unchanged.
\<close>

theorem expand_not_identity_counterexample:
  "\<not> shouldUsePoliticsDomain ''weather''
   \<and> expandQueryWithDomain
        (Some \<lparr>politics = Some \<lparr>synonyms = [''vote''], related_terms = [],
            parties = None, institutions = None, people = None\<rparr>\<rparr>) ''''
        \<lparr>phrases = [], tokens = [''weather''], excludeTokens = Some [''Congress''],
          anchorTokens = Some [''uk'']\<rparr> ''weather''
     \<noteq> \<lparr>phrases = [], tokens = [''weather''], excludeTokens = Some [''Congress''],
          anchorTokens = Some [''uk'']\<rparr>"
  by (simp add: expandQueryWithDomain_def Let_def no_trigger_weather)

text \<open>
  Claim C4, amended. Without domain terms \<open>expandQueryWithDomain\<close> returns its input
  unchanged. With domain terms, when the politics domain is missing or its trigger fails
  on the raw query, it returns the phrases and the tokens of its input unchanged, with
  \<open>excludeTokens\<close> and \<open>anchorTokens\<close> set to empty lists.
\<close>

theorem expand_without_trigger:
  "expandQueryWithDomain None feedGroup qparts query = qparts
   \<and> (politics dt = None \<or> \<not> shouldUsePoliticsDomain query \<longrightarrow>
        expandQueryWithDomain (Some dt) feedGroup qparts query =
          \<lparr>phrases = phrases qparts, tokens = tokens qparts,
            excludeTokens = Some [], anchorTokens = Some []\<rparr>)"
  by (auto simp: expandQueryWithDomain_def Let_def split: option.splits)

theorem expand_without_trigger_witness:
  "(politics \<lparr>politics = Some \<lparr>synonyms = [''vote''], related_terms = [],
            parties = None, institutions = None, people = None\<rparr>\<rparr> = None
      \<or> \<not> shouldUsePoliticsDomain ''weather'')
   \<and> expandQueryWithDomain
        (Some \<lparr>politics = Some \<lparr>synonyms = [''vote''], related_terms = [],
            parties = None, institutions = None, people = None\<rparr>\<rparr>) ''''
        \<lparr>phrases = [''heavy rain''], tokens = [''weather''], excludeTokens = None,
          anchorTokens = None\<rparr> ''weather''
     = \<lparr>phrases = [''heavy rain''], tokens = [''weather''], excludeTokens = Some [],
          anchorTokens = Some []\<rparr>"
  using expand_without_trigger [of "''''"
      "\<lparr>phrases = [''heavy rain''], tokens = [''weather''], excludeTokens = None,
          anchorTokens = None\<rparr>" "''weather''"
      "\<lparr>politics = Some \<lparr>synonyms = [''vote''], related_terms = [],
            parties = None, institutions = None, people = None\<rparr>\<rparr>"]
    no_trigger_weather
  by simp

section \<open>Term ingestion\<close>

lemma list_ex_lower: "list_ex (\<lambda>x. toLowerCase x = low) xs \<longleftrightarrow> low \<in> toLowerCase ` set xs"
  by (auto simp: list_ex_iff)

lemma length_toLowerCase: "length (toLowerCase s) = length s"
  by (simp add: toLowerCase_def)

lemma trim_Nil: "trim [] = []"
  by (simp add: trim_def)

lemma addTerm_spec: "phrasesTokens (addTerm t out) = spec_addTerm t (phrasesTokens out)"
  by (auto simp: addTerm_def spec_addTerm_def phrasesTokens_def Let_def list_ex_lower
        length_toLowerCase trim_Nil)

lemma fold_addTerm_spec:
  "phrasesTokens (fold addTerm ts out) = fold spec_addTerm ts (phrasesTokens out)"
  by (induction ts arbitrary: out) (simp_all add: addTerm_spec)

lemma addFromRegions_spec:
  "phrasesTokens (addFromRegions rs obj out) = fold spec_addTerm (regionTerms rs obj) (phrasesTokens out)"
proof (induction rs arbitrary: out)
  case Nil
  then show ?case by (simp add: addFromRegions_def regionTerms_def)
next
  case (Cons r rs)
  have step: "addFromRegions (r # rs) obj out =
      addFromRegions rs obj (case regionArray obj r of None \<Rightarrow> out | Some arr \<Rightarrow> fold addTerm arr out)"
    by (simp add: addFromRegions_def)
  show ?case
    unfolding step Cons.IH
    by (cases "regionArray obj r") (simp_all add: regionTerms_def fold_addTerm_spec)
qed

lemma phrasesTokens_updates:
  "phrasesTokens (out\<lparr>anchorTokens := a\<rparr>) = phrasesTokens out"
  "phrasesTokens (out\<lparr>excludeTokens := e\<rparr>) = phrasesTokens out"
  by (simp_all add: phrasesTokens_def)

lemma regionKeys_allRegionsOf:
  "fold setAdd (objectKeys (people p))
     (fold setAdd (objectKeys (institutions p)) (fold setAdd (objectKeys (parties p)) []))
   = allRegionsOf p"
  by (simp add: allRegionsOf_def)

lemma expand_phrasesTokens:
  assumes "politics dt = Some p" and "shouldUsePoliticsDomain query"
  shows "phrasesTokens (expandQueryWithDomain (Some dt) feedGroup qparts query) =
     fold spec_addTerm
       (source_termOrder p (targetRegionsOf p (detectRegionsFromContext feedGroup query)))
       (phrases qparts, tokens qparts)"
  using assms
  by (simp add: expandQueryWithDomain_def Let_def fold_addTerm_spec addFromRegions_spec
        phrasesTokens_updates regionKeys_allRegionsOf source_termOrder_def targetRegionsOf_def)
     (simp add: phrasesTokens_def)

lemma regions_uk_election: "detectRegionsFromContext '''' ''uk election'' = [''uk'']"
  by code_simp

lemma trigger_uk_election: "shouldUsePoliticsDomain ''uk election''"
  by code_simp

lemma parse_uk_election:
  "parseQueryParts ''uk election'' =
     \<lparr>phrases = [], tokens = [''election''], excludeTokens = None, anchorTokens = None\<rparr>"
  by code_simp

lemma ingest_source_order:
  "spec_addTerm ''vote'' (spec_addTerm ''Labour'' ([], [''election'']))
     = ([], [''election'', ''Labour'', ''vote''])"
  by code_simp

lemma ingest_spec_order:
  "spec_addTerm ''Labour'' (spec_addTerm ''vote'' ([], [''election'']))
     = ([], [''election'', ''vote'', ''Labour''])"
  by code_simp

text \<open>
  Claim C7, as stated, fails in the order of ingestion: the source ingests the related
  terms last, after the lists of the target regions. For the query "uk election", the
  party "Labour" under "uk" and the related term "vote", the tokens of the source are
  election, Labour, vote; ingestion in the stated order gives election, vote, Labour.
\<close>

theorem ingestion_order_counterexample:
  "tokens (expandQueryWithDomain
      (Some \<lparr>politics = Some \<lparr>synonyms = [], related_terms = [''vote''],
          parties = Some [(''uk'', [''Labour''])], institutions = None, people = None\<rparr>\<rparr>)
      '''' (parseQueryParts ''uk election'') ''uk election'')
     = [''election'', ''Labour'', ''vote'']
   \<and> snd (fold spec_addTerm
        (spec_termOrder \<lparr>synonyms = [], related_terms = [''vote''],
            parties = Some [(''uk'', [''Labour''])], institutions = None, people = None\<rparr>
          (targetRegionsOf \<lparr>synonyms = [], related_terms = [''vote''],
              parties = Some [(''uk'', [''Labour''])], institutions = None, people = None\<rparr>
            (detectRegionsFromContext '''' ''uk election'')))
        (phrases (parseQueryParts ''uk election''), tokens (parseQueryParts ''uk election'')))
     = [''election'', ''vote'', ''Labour'']"
proof -
  let ?p = "\<lparr>synonyms = [], related_terms = [''vote''],
      parties = Some [(''uk'', [''Labour''])], institutions = None, people = None\<rparr>"
  have "phrasesTokens (expandQueryWithDomain (Some \<lparr>politics = Some ?p\<rparr>) ''''
          (parseQueryParts ''uk election'') ''uk election'')
        = ([], [''election'', ''Labour'', ''vote''])"
    using expand_phrasesTokens [of "\<lparr>politics = Some ?p\<rparr>" ?p "''uk election''" "''''"
        "parseQueryParts ''uk election''"]
    by (simp add: trigger_uk_election regions_uk_election parse_uk_election targetRegionsOf_def
          source_termOrder_def regionTerms_def regionArray_def ingest_source_order)
  then have a: "tokens (expandQueryWithDomain (Some \<lparr>politics = Some ?p\<rparr>) ''''
          (parseQueryParts ''uk election'') ''uk election'') = [''election'', ''Labour'', ''vote'']"
    by (simp add: phrasesTokens_def)
  have b: "snd (fold spec_addTerm
        (spec_termOrder ?p (targetRegionsOf ?p (detectRegionsFromContext '''' ''uk election'')))
        (phrases (parseQueryParts ''uk election''), tokens (parseQueryParts ''uk election'')))
     = [''election'', ''vote'', ''Labour'']"
    by (simp add: regions_uk_election parse_uk_election targetRegionsOf_def
          spec_termOrder_def regionTerms_def regionArray_def ingest_spec_order)
  from a b show ?thesis by simp
qed

text \<open>
  Claim C7, amended. With the politics domain triggered, the phrases and tokens that
  \<open>expandQueryWithDomain\<close> returns are those of its input after ingesting, one term after
  the other, the synonyms, then the party, institution and people lists of the target
  regions only, then the related terms (the synonyms and the related terms whatever the
  region). Each term is ingested by the rule \<open>spec_addTerm\<close>: it is trimmed; with a space in
  it, it is added to the phrases unless a phrase with the same lower-case form is there;
  otherwise it is added to the tokens unless a token with the same lower-case form is
  there, or it is a stop word, or it has fewer than 2 characters.
\<close>

theorem expand_ingestion:
  assumes "politics dt = Some p" and "shouldUsePoliticsDomain query"
  shows "(phrases (expandQueryWithDomain (Some dt) feedGroup qparts query),
          tokens (expandQueryWithDomain (Some dt) feedGroup qparts query)) =
     fold spec_addTerm
       (source_termOrder p (targetRegionsOf p (detectRegionsFromContext feedGroup query)))
       (phrases qparts, tokens qparts)"
  using expand_phrasesTokens [OF assms] by (simp add: phrasesTokens_def)

theorem expand_ingestion_witness:
  "politics \<lparr>politics = Some \<lparr>synonyms = [], related_terms = [''vote''],
          parties = Some [(''uk'', [''Labour''])], institutions = None, people = None\<rparr>\<rparr>
     = Some \<lparr>synonyms = [], related_terms = [''vote''],
          parties = Some [(''uk'', [''Labour''])], institutions = None, people = None\<rparr>
   \<and> shouldUsePoliticsDomain ''uk election''
   \<and> (phrases (expandQueryWithDomain
          (Some \<lparr>politics = Some \<lparr>synonyms = [], related_terms = [''vote''],
              parties = Some [(''uk'', [''Labour''])], institutions = None, people = None\<rparr>\<rparr>)
          '''' \<lparr>phrases = [], tokens = [''election''], excludeTokens = None, anchorTokens = None\<rparr>
          ''uk election''),
        tokens (expandQueryWithDomain
          (Some \<lparr>politics = Some \<lparr>synonyms = [], related_terms = [''vote''],
              parties = Some [(''uk'', [''Labour''])], institutions = None, people = None\<rparr>\<rparr>)
          '''' \<lparr>phrases = [], tokens = [''election''], excludeTokens = None, anchorTokens = None\<rparr>
          ''uk election''))
      = ([], [''election'', ''Labour'', ''vote''])"
proof -
  let ?p = "\<lparr>synonyms = [], related_terms = [''vote''],
      parties = Some [(''uk'', [''Labour''])], institutions = None, people = None\<rparr>"
  have h1: "politics \<lparr>politics = Some ?p\<rparr> = Some ?p" by simp
  note h2 = trigger_uk_election
  from expand_ingestion [OF h1 h2, of "''''"
      "\<lparr>phrases = [], tokens = [''election''], excludeTokens = None, anchorTokens = None\<rparr>"]
  show ?thesis
    by (simp add: trigger_uk_election regions_uk_election targetRegionsOf_def
          source_termOrder_def regionTerms_def regionArray_def ingest_source_order)
qed

section \<open>Mentions given as bare title strings\<close>

text \<open>
  Claim C3. Every mention, whatever its shape, is said to be resolved by the first rule
  that succeeds among URL match, index, exact title, and containment of a title of at
  least 8 characters. For a bare string the source tries the URL rule when the string
  starts with "http" and the exact title rule otherwise, and never the containment rule
  that the object branch applies: the string "prime minister announces" selects nothing
  among the headlines, the object with that title selects headline 0.
\<close>

theorem bare_title_without_containment:
  "autoSelectByMentions parseUrl
      [\<lparr>title = ''UK Prime Minister announces election'', summary = '''', source = ''bbc'',
        link = ''http://x.com/a''\<rparr>]
      (\<lambda>i. True) [MString ''prime minister announces''] None = ([], 0)
   \<and> autoSelectByMentions parseUrl
      [\<lparr>title = ''UK Prime Minister announces election'', summary = '''', source = ''bbc'',
        link = ''http://x.com/a''\<rparr>]
      (\<lambda>i. True) [MObject None None (Some ''prime minister announces'')] None = ([0], 1)"
proof -
  have t: "toLowerCase (trim ''prime minister announces'') = ''prime minister announces''"
    by code_simp
  have h: "toLowerCase (trim ''UK Prime Minister announces election'')
      = ''uk prime minister announces election''"
    by code_simp
  have l: "toLowerCase ''UK Prime Minister announces election''
      = ''uk prime minister announces election''"
    by code_simp
  have i: "includesStr ''uk prime minister announces election'' ''prime minister announces''"
    by code_simp
  show ?thesis
    by (simp add: autoSelectByMentions_def resolveMention_def findIndex_def Let_def t h l i)
qed

section \<open>One video per page\<close>

lemma map_fst_mapSet:
  "map fst (mapSet k v es) = (if k \<in> fst ` set es then map fst es else map fst es @ [k])"
  by (induction es) auto

lemma mapSet_fresh: "k \<notin> fst ` set es \<Longrightarrow> mapSet k v es = es @ [(k, v)]"
  by (induction es) auto

lemma map_of_mapSet: "map_of (mapSet k v es) = (map_of es)(k \<mapsto> v)"
  by (induction es) (auto simp: fun_eq_iff)

lemma distinct_mapSet: "distinct (map fst es) \<Longrightarrow> distinct (map fst (mapSet k v es))"
  by (simp add: map_fst_mapSet)

lemma keys_mapSet: "fst ` set (mapSet k v es) = insert k (fst ` set es)"
  using arg_cong [OF map_fst_mapSet [of k v es], of set] by (auto split: if_splits)

lemma bestLoop_step: "bestLoop (v # vs) best = bestLoop vs (bestStep v best)"
  by (simp add: bestStep_def Let_def split: option.splits)

lemma find_snoc:
  "find P (xs @ [x]) = (case find P xs of None \<Rightarrow> (if P x then Some x else None) | Some y \<Rightarrow> Some y)"
  by (induction xs) auto

lemma firstBest_other:
  assumes "firstBest seen k w" and "pageKey v \<noteq> k"
  shows "firstBest (seen @ [v]) k w"
  using assms by (auto simp: firstBest_def find_snoc)

lemma firstBest_new:
  assumes "pageKey v \<notin> pageKey ` set seen"
  shows "firstBest (seen @ [v]) (pageKey v) v"
proof -
  have none: "\<And>u. u \<in> set seen \<Longrightarrow> pageKey u \<noteq> pageKey v"
    using assms by (metis imageI)
  have "\<not> (\<exists>u. u \<in> set seen \<and> (pageKey u = pageKey v \<and> rank u = rank v))"
    using none by blast
  then have fn: "find (\<lambda>u. pageKey u = pageKey v \<and> rank u = rank v) seen = None"
    unfolding find_None_iff .
  have bound: "\<forall>u\<in>set (seen @ [v]). pageKey u = pageKey v \<longrightarrow> rank u \<le> rank v"
    using none by auto
  have "find (\<lambda>u. pageKey u = pageKey v \<and> rank u = rank v) (seen @ [v]) = Some v"
    by (simp add: find_snoc fn)
  with bound show ?thesis
    unfolding firstBest_def by simp
qed

lemma firstBest_better:
  assumes "firstBest seen (pageKey v) cur" and "rank cur < rank v"
  shows "firstBest (seen @ [v]) (pageKey v) v"
proof -
  have "find (\<lambda>u. pageKey u = pageKey v \<and> rank u = rank v) seen = None"
    using assms by (fastforce simp: find_None_iff firstBest_def)
  with assms show ?thesis
    by (fastforce simp: firstBest_def find_snoc)
qed

lemma firstBest_keep:
  assumes "firstBest seen (pageKey v) cur" and "\<not> rank cur < rank v"
  shows "firstBest (seen @ [v]) (pageKey v) cur"
  using assms by (auto simp: firstBest_def find_snoc)

lemma bestInv_step:
  assumes "bestInv seen best"
  shows "bestInv (seen @ [v]) (bestStep v best)"
proof (cases "map_of best (pageKey v)")
  case None
  then have fresh: "pageKey v \<notin> pageKey ` set seen"
    using assms by (auto simp: bestInv_def map_of_eq_None_iff)
  have step: "bestStep v best = mapSet (pageKey v) v best"
    using None by (simp add: bestStep_def)
  show ?thesis
    unfolding step bestInv_def
    using assms fresh
    by (auto simp: bestInv_def distinct_mapSet keys_mapSet map_of_mapSet firstBest_new
          firstBest_other)
next
  case (Some cur)
  then have cur: "firstBest seen (pageKey v) cur"
    using assms by (simp add: bestInv_def)
  then have key_seen: "pageKey v \<in> pageKey ` set seen"
    by (metis firstBest_def imageI)
  show ?thesis
  proof (cases "rank cur < rank v")
    case True
    then have step: "bestStep v best = mapSet (pageKey v) v best"
      using Some by (simp add: bestStep_def)
    show ?thesis
      unfolding step bestInv_def
      using assms key_seen firstBest_better [OF cur True]
      by (auto simp: bestInv_def distinct_mapSet keys_mapSet map_of_mapSet firstBest_other)
  next
    case False
    then have step: "bestStep v best = best"
      using Some by (simp add: bestStep_def)
    show ?thesis
      unfolding step bestInv_def
    proof (intro conjI allI impI)
      show "distinct (map fst best)" using assms by (simp add: bestInv_def)
      show "fst ` set best = pageKey ` set (seen @ [v])"
        using assms key_seen by (auto simp: bestInv_def)
      fix k w
      assume kw: "map_of best k = Some w"
      show "firstBest (seen @ [v]) k w"
      proof (cases "k = pageKey v")
        case True
        with kw Some have "w = cur" by simp
        with True firstBest_keep [OF cur False] show ?thesis by simp
      next
        case False
        with kw assms show ?thesis
          by (auto simp: bestInv_def intro: firstBest_other)
      qed
    qed
  qed
qed

lemma bestInv_loop: "bestInv seen best \<Longrightarrow> bestInv (seen @ vs) (bestLoop vs best)"
proof (induction vs arbitrary: seen best)
  case Nil
  then show ?case by simp
next
  case (Cons v vs)
  from Cons.IH [OF bestInv_step [OF Cons.prems, of v]]
  show ?case unfolding bestLoop_step by simp
qed

lemma bestInv_all: "bestInv vs (bestLoop vs [])"
  using bestInv_loop [of "[]" "[]" vs] by (simp add: bestInv_def)

lemma best_entries:
  assumes "bestInv vs best" and "(k, v) \<in> set best"
  shows "firstBest vs k v"
proof -
  from assms have "map_of best k = Some v"
    by (simp add: bestInv_def)
  with assms show ?thesis by (simp add: bestInv_def)
qed

lemma best_keys:
  assumes "bestInv vs best"
  shows "map pageKey (map snd best) = map fst best"
proof -
  have "\<And>e. e \<in> set best \<Longrightarrow> pageKey (snd e) = fst e"
    using best_entries [OF assms] by (metis firstBest_def prod.collapse)
  then show ?thesis by simp
qed

lemma uniqueByPage_pageKeys: "map pageKey (uniqueByPage vs) = map fst (bestLoop vs [])"
  unfolding uniqueByPage_def by (rule best_keys [OF bestInv_all])

lemma uniqueByPage_distinct: "distinct (map pageKey (uniqueByPage vs))"
  unfolding uniqueByPage_pageKeys using bestInv_all [of vs] by (simp add: bestInv_def)

lemma uniqueByPage_keys: "pageKey ` set (uniqueByPage vs) = pageKey ` set vs"
proof -
  have "set (map pageKey (uniqueByPage vs)) = set (map fst (bestLoop vs []))"
    by (simp only: uniqueByPage_pageKeys)
  then show ?thesis
    using bestInv_all [of vs] by (simp add: bestInv_def)
qed

lemma uniqueByPage_firstBest:
  assumes "s \<in> set (uniqueByPage vs)"
  shows "firstBest vs (pageKey s) s"
proof -
  from assms obtain k where ks: "(k, s) \<in> set (bestLoop vs [])"
    by (auto simp: uniqueByPage_def)
  from best_entries [OF bestInv_all ks] have fb: "firstBest vs k s" .
  then have "pageKey s = k" by (simp add: firstBest_def)
  with fb show ?thesis by simp
qed

lemma rank_values:
  "rank v = (if videoTypeBucket v = ''platform'' \<or> videoTypeBucket v = ''direct'' then 3
             else if videoTypeBucket v = ''stream'' then 2 else 1)"
  by (simp add: rank_def Let_def)

lemma distinct_map_sort_key:
  "distinct (map g (sort_key f xs)) = distinct (map g xs)"
proof -
  have "mset (map g (sort_key f xs)) = mset (map g xs)" by simp
  then show ?thesis by (rule mset_eq_imp_distinct_iff)
qed

lemma example_unique:
  "uniqueByPage
     [\<lparr>v_title = ''a'', srcUrl = Some ''http://cdn.example/clip.mp4'', pageUrl = Some ''http://news.example/p'', sourceType = ''mp4''\<rparr>,
      \<lparr>v_title = ''b'', srcUrl = Some ''http://player.example/embed/1'', pageUrl = Some ''http://news.example/p'', sourceType = ''embed''\<rparr>,
      \<lparr>v_title = ''c'', srcUrl = Some ''http://youtube.example/watch'', pageUrl = Some ''http://news.example/p'', sourceType = ''youtube''\<rparr>]
   = [\<lparr>v_title = ''a'', srcUrl = Some ''http://cdn.example/clip.mp4'', pageUrl = Some ''http://news.example/p'', sourceType = ''mp4''\<rparr>]"
  by code_simp

lemma example_filterStage:
  "filterStage hostOf \<lparr>playableOnly = False, uniquePerPage = True, fromSelectedOnly = False,
      typeVal = ''all'', vidSearch = '''', selectedUrls = []\<rparr> vs = vs"
  by (simp add: filterStage_def trim_def toLowerCase_def)

lemma pageKey_cases:
  "(pageUrl v = Some u \<and> u \<noteq> [] \<longrightarrow> pageKey v = Some u)
   \<and> (pageUrl v = None \<or> pageUrl v = Some [] \<longrightarrow> pageKey v = srcUrl v)"
  by (auto simp: pageKey_def)

lemma bucket_by_type:
  "videoTypeBucket v =
     (if toLowerCase (sourceType v) = ''youtube'' \<or> toLowerCase (sourceType v) = ''vimeo''
      then ''platform''
      else if toLowerCase (sourceType v) = ''mp4'' \<or> toLowerCase (sourceType v) = ''webm''
      then ''direct''
      else if toLowerCase (sourceType v) = ''m3u8'' then ''stream''
      else ''embed'')"
  by (simp add: videoTypeBucket_def Let_def)

lemma rank_by_type:
  "rank v =
     (if toLowerCase (sourceType v) = ''youtube'' \<or> toLowerCase (sourceType v) = ''vimeo''
         \<or> toLowerCase (sourceType v) = ''mp4'' \<or> toLowerCase (sourceType v) = ''webm''
      then 3
      else if toLowerCase (sourceType v) = ''m3u8'' then 2
      else 1)"
  by (simp add: rank_def videoTypeBucket_def Let_def)

lemma example_pages:
  "uniqueByPage
     [\<lparr>v_title = ''e'', srcUrl = Some ''http://player.example/embed/2'', pageUrl = Some ''http://news.example/p'', sourceType = ''embed''\<rparr>,
      \<lparr>v_title = ''y'', srcUrl = Some ''http://youtube.example/watch'', pageUrl = Some ''http://news.example/p'', sourceType = ''YouTube''\<rparr>,
      \<lparr>v_title = ''f'', srcUrl = Some ''http://cdn.example/live.m3u8'', pageUrl = Some '''', sourceType = ''iframe''\<rparr>,
      \<lparr>v_title = ''m'', srcUrl = Some ''http://cdn.example/live.m3u8'', pageUrl = None, sourceType = ''m3u8''\<rparr>,
      \<lparr>v_title = ''w'', srcUrl = Some ''http://cdn.example/clip.webm'', pageUrl = Some ''http://news.example/q'', sourceType = ''webm''\<rparr>]
   = [\<lparr>v_title = ''y'', srcUrl = Some ''http://youtube.example/watch'', pageUrl = Some ''http://news.example/p'', sourceType = ''YouTube''\<rparr>,
      \<lparr>v_title = ''m'', srcUrl = Some ''http://cdn.example/live.m3u8'', pageUrl = None, sourceType = ''m3u8''\<rparr>,
      \<lparr>v_title = ''w'', srcUrl = Some ''http://cdn.example/clip.webm'', pageUrl = Some ''http://news.example/q'', sourceType = ''webm''\<rparr>]"
  by code_simp

lemma example_pages_applied:
  "set (applyVideoFilters hostOf collate
        \<lparr>playableOnly = False, uniquePerPage = True, fromSelectedOnly = False,
          typeVal = ''all'', vidSearch = '''', selectedUrls = []\<rparr>
     [\<lparr>v_title = ''e'', srcUrl = Some ''http://player.example/embed/2'', pageUrl = Some ''http://news.example/p'', sourceType = ''embed''\<rparr>,
      \<lparr>v_title = ''y'', srcUrl = Some ''http://youtube.example/watch'', pageUrl = Some ''http://news.example/p'', sourceType = ''YouTube''\<rparr>,
      \<lparr>v_title = ''f'', srcUrl = Some ''http://cdn.example/live.m3u8'', pageUrl = Some '''', sourceType = ''iframe''\<rparr>,
      \<lparr>v_title = ''m'', srcUrl = Some ''http://cdn.example/live.m3u8'', pageUrl = None, sourceType = ''m3u8''\<rparr>,
      \<lparr>v_title = ''w'', srcUrl = Some ''http://cdn.example/clip.webm'', pageUrl = Some ''http://news.example/q'', sourceType = ''webm''\<rparr>])
   = {\<lparr>v_title = ''y'', srcUrl = Some ''http://youtube.example/watch'', pageUrl = Some ''http://news.example/p'', sourceType = ''YouTube''\<rparr>,
      \<lparr>v_title = ''m'', srcUrl = Some ''http://cdn.example/live.m3u8'', pageUrl = None, sourceType = ''m3u8''\<rparr>,
      \<lparr>v_title = ''w'', srcUrl = Some ''http://cdn.example/clip.webm'', pageUrl = Some ''http://news.example/q'', sourceType = ''webm''\<rparr>}"
proof -
  have "uniquePerPage \<lparr>playableOnly = False, uniquePerPage = True, fromSelectedOnly = False,
          typeVal = ''all'', vidSearch = '''', selectedUrls = []\<rparr>"
    by simp
  then show ?thesis
    unfolding applyVideoFilters_def Let_def example_filterStage if_P set_sort example_pages
    by simp
qed

lemma example_one_page:
  "applyVideoFilters hostOf collate
        \<lparr>playableOnly = False, uniquePerPage = True, fromSelectedOnly = False,
          typeVal = ''all'', vidSearch = '''', selectedUrls = []\<rparr>
        [\<lparr>v_title = ''a'', srcUrl = Some ''http://cdn.example/clip.mp4'', pageUrl = Some ''http://news.example/p'', sourceType = ''mp4''\<rparr>,
         \<lparr>v_title = ''b'', srcUrl = Some ''http://player.example/embed/1'', pageUrl = Some ''http://news.example/p'', sourceType = ''embed''\<rparr>,
         \<lparr>v_title = ''c'', srcUrl = Some ''http://youtube.example/watch'', pageUrl = Some ''http://news.example/p'', sourceType = ''youtube''\<rparr>]
      = [\<lparr>v_title = ''a'', srcUrl = Some ''http://cdn.example/clip.mp4'', pageUrl = Some ''http://news.example/p'', sourceType = ''mp4''\<rparr>]"
  unfolding applyVideoFilters_def Let_def example_filterStage
  by (simp add: example_unique)

lemma unique_general:
  assumes u: "uniquePerPage cfg"
  shows "distinct (map pageKey (applyVideoFilters hostOf collate cfg all))
      \<and> pageKey ` set (applyVideoFilters hostOf collate cfg all)
          = pageKey ` set (filterStage hostOf cfg all)
      \<and> (\<forall>s\<in>set (applyVideoFilters hostOf collate cfg all).
            s \<in> set (filterStage hostOf cfg all)
            \<and> (\<forall>u\<in>set (filterStage hostOf cfg all). pageKey u = pageKey s \<longrightarrow> rank u \<le> rank s)
            \<and> find (\<lambda>u. pageKey u = pageKey s \<and> rank u = rank s) (filterStage hostOf cfg all)
                = Some s)"
proof (intro conjI)
  from u have res: "applyVideoFilters hostOf collate cfg all
      = sort_key (\<lambda>v. collate (sortKey v)) (uniqueByPage (filterStage hostOf cfg all))"
    by (simp add: applyVideoFilters_def)
  show "distinct (map pageKey (applyVideoFilters hostOf collate cfg all))"
    by (simp only: res distinct_map_sort_key uniqueByPage_distinct)
  show "pageKey ` set (applyVideoFilters hostOf collate cfg all)
          = pageKey ` set (filterStage hostOf cfg all)"
    by (simp add: res uniqueByPage_keys)
  show "\<forall>s\<in>set (applyVideoFilters hostOf collate cfg all).
            s \<in> set (filterStage hostOf cfg all)
            \<and> (\<forall>u\<in>set (filterStage hostOf cfg all). pageKey u = pageKey s \<longrightarrow> rank u \<le> rank s)
            \<and> find (\<lambda>u. pageKey u = pageKey s \<and> rank u = rank s) (filterStage hostOf cfg all)
                = Some s"
  proof
    fix s
    assume "s \<in> set (applyVideoFilters hostOf collate cfg all)"
    then have "s \<in> set (uniqueByPage (filterStage hostOf cfg all))"
      by (simp add: res)
    then have "firstBest (filterStage hostOf cfg all) (pageKey s) s"
      by (rule uniqueByPage_firstBest)
    then show "s \<in> set (filterStage hostOf cfg all)
            \<and> (\<forall>u\<in>set (filterStage hostOf cfg all). pageKey u = pageKey s \<longrightarrow> rank u \<le> rank s)
            \<and> find (\<lambda>u. pageKey u = pageKey s \<and> rank u = rank s) (filterStage hostOf cfg all)
                = Some s"
      by (simp add: firstBest_def)
  qed
qed

text \<open>
  Claim C8. With the per-page option on, the result of \<open>applyVideoFilters\<close> has one
  candidate for every page key among the candidates that passed the filters, and that
  candidate is the first of the highest rank among those of its key. The page key of a
  candidate is its page URL when that is present and not empty, and its source URL
  otherwise. The types youtube and vimeo (in any letter case) are the bucket platform, mp4
  and webm are direct, m3u8 is stream and every other type is embed; platform and direct
  rank 3, stream ranks 2 and embed ranks 1. For three candidates of one page with the
  types mp4, embed and youtube, in this order, the result is the mp4 candidate alone. For
  an embed and a youtube candidate of one page, an unknown type and an m3u8 candidate
  without page URL that share a source URL, and a webm candidate of another page, the
  survivors are the youtube, the m3u8 and the webm candidate.
\<close>

theorem uniquePerPage_first_best:
  "(uniquePerPage cfg \<longrightarrow>
      distinct (map pageKey (applyVideoFilters hostOf collate cfg all))
      \<and> pageKey ` set (applyVideoFilters hostOf collate cfg all)
          = pageKey ` set (filterStage hostOf cfg all)
      \<and> (\<forall>s\<in>set (applyVideoFilters hostOf collate cfg all).
            s \<in> set (filterStage hostOf cfg all)
            \<and> (\<forall>u\<in>set (filterStage hostOf cfg all). pageKey u = pageKey s \<longrightarrow> rank u \<le> rank s)
            \<and> find (\<lambda>u. pageKey u = pageKey s \<and> rank u = rank s) (filterStage hostOf cfg all)
                = Some s))
   \<and> (pageUrl v = Some p \<and> p \<noteq> [] \<longrightarrow> pageKey v = Some p)
   \<and> (pageUrl v = None \<or> pageUrl v = Some [] \<longrightarrow> pageKey v = srcUrl v)
   \<and> videoTypeBucket v =
       (if toLowerCase (sourceType v) = ''youtube'' \<or> toLowerCase (sourceType v) = ''vimeo''
        then ''platform''
        else if toLowerCase (sourceType v) = ''mp4'' \<or> toLowerCase (sourceType v) = ''webm''
        then ''direct''
        else if toLowerCase (sourceType v) = ''m3u8'' then ''stream''
        else ''embed'')
   \<and> rank v = (if videoTypeBucket v = ''platform'' \<or> videoTypeBucket v = ''direct'' then 3
               else if videoTypeBucket v = ''stream'' then 2 else 1)
   \<and> rank v =
       (if toLowerCase (sourceType v) = ''youtube'' \<or> toLowerCase (sourceType v) = ''vimeo''
           \<or> toLowerCase (sourceType v) = ''mp4'' \<or> toLowerCase (sourceType v) = ''webm''
        then 3
        else if toLowerCase (sourceType v) = ''m3u8'' then 2
        else 1)
   \<and> applyVideoFilters hostOf collate
        \<lparr>playableOnly = False, uniquePerPage = True, fromSelectedOnly = False,
          typeVal = ''all'', vidSearch = '''', selectedUrls = []\<rparr>
        [\<lparr>v_title = ''a'', srcUrl = Some ''http://cdn.example/clip.mp4'', pageUrl = Some ''http://news.example/p'', sourceType = ''mp4''\<rparr>,
         \<lparr>v_title = ''b'', srcUrl = Some ''http://player.example/embed/1'', pageUrl = Some ''http://news.example/p'', sourceType = ''embed''\<rparr>,
         \<lparr>v_title = ''c'', srcUrl = Some ''http://youtube.example/watch'', pageUrl = Some ''http://news.example/p'', sourceType = ''youtube''\<rparr>]
      = [\<lparr>v_title = ''a'', srcUrl = Some ''http://cdn.example/clip.mp4'', pageUrl = Some ''http://news.example/p'', sourceType = ''mp4''\<rparr>]
   \<and> set (applyVideoFilters hostOf collate
        \<lparr>playableOnly = False, uniquePerPage = True, fromSelectedOnly = False,
          typeVal = ''all'', vidSearch = '''', selectedUrls = []\<rparr>
        [\<lparr>v_title = ''e'', srcUrl = Some ''http://player.example/embed/2'', pageUrl = Some ''http://news.example/p'', sourceType = ''embed''\<rparr>,
         \<lparr>v_title = ''y'', srcUrl = Some ''http://youtube.example/watch'', pageUrl = Some ''http://news.example/p'', sourceType = ''YouTube''\<rparr>,
         \<lparr>v_title = ''f'', srcUrl = Some ''http://cdn.example/live.m3u8'', pageUrl = Some '''', sourceType = ''iframe''\<rparr>,
         \<lparr>v_title = ''m'', srcUrl = Some ''http://cdn.example/live.m3u8'', pageUrl = None, sourceType = ''m3u8''\<rparr>,
         \<lparr>v_title = ''w'', srcUrl = Some ''http://cdn.example/clip.webm'', pageUrl = Some ''http://news.example/q'', sourceType = ''webm''\<rparr>])
      = {\<lparr>v_title = ''y'', srcUrl = Some ''http://youtube.example/watch'', pageUrl = Some ''http://news.example/p'', sourceType = ''YouTube''\<rparr>,
         \<lparr>v_title = ''m'', srcUrl = Some ''http://cdn.example/live.m3u8'', pageUrl = None, sourceType = ''m3u8''\<rparr>,
         \<lparr>v_title = ''w'', srcUrl = Some ''http://cdn.example/clip.webm'', pageUrl = Some ''http://news.example/q'', sourceType = ''webm''\<rparr>}"
  (is "?G \<and> ?K1 \<and> ?K2 \<and> ?B \<and> ?R1 \<and> ?R2 \<and> ?E1 \<and> ?E2")
proof -
  have g: ?G using unique_general [of cfg hostOf collate all] by blast
  have k1: ?K1 and k2: ?K2 using pageKey_cases [of v p] by blast+
  have b: ?B by (rule bucket_by_type)
  have r1: ?R1 by (rule rank_values)
  have r2: ?R2 by (rule rank_by_type)
  have e1: ?E1 by (rule example_one_page)
  have e2: ?E2 by (rule example_pages_applied)
  from g k1 k2 b r1 r2 e1 e2 show ?thesis by (intro conjI)
qed

theorem uniquePerPage_first_best_witness:
  "uniquePerPage \<lparr>playableOnly = False, uniquePerPage = True, fromSelectedOnly = False,
          typeVal = ''all'', vidSearch = '''', selectedUrls = []\<rparr>
   \<and> \<lparr>v_title = ''a'', srcUrl = Some ''http://cdn.example/clip.mp4'', pageUrl = Some ''http://news.example/p'', sourceType = ''mp4''\<rparr>
       \<in> set (applyVideoFilters (\<lambda>x. None) (\<lambda>s. map (of_char :: char \<Rightarrow> nat) s)
          \<lparr>playableOnly = False, uniquePerPage = True, fromSelectedOnly = False,
            typeVal = ''all'', vidSearch = '''', selectedUrls = []\<rparr>
          [\<lparr>v_title = ''a'', srcUrl = Some ''http://cdn.example/clip.mp4'', pageUrl = Some ''http://news.example/p'', sourceType = ''mp4''\<rparr>,
           \<lparr>v_title = ''b'', srcUrl = Some ''http://player.example/embed/1'', pageUrl = Some ''http://news.example/p'', sourceType = ''embed''\<rparr>,
           \<lparr>v_title = ''c'', srcUrl = Some ''http://youtube.example/watch'', pageUrl = Some ''http://news.example/p'', sourceType = ''youtube''\<rparr>])
   \<and> \<lparr>v_title = ''c'', srcUrl = Some ''http://youtube.example/watch'', pageUrl = Some ''http://news.example/p'', sourceType = ''youtube''\<rparr>
       \<in> set (filterStage (\<lambda>x. None)
          \<lparr>playableOnly = False, uniquePerPage = True, fromSelectedOnly = False,
            typeVal = ''all'', vidSearch = '''', selectedUrls = []\<rparr>
          [\<lparr>v_title = ''a'', srcUrl = Some ''http://cdn.example/clip.mp4'', pageUrl = Some ''http://news.example/p'', sourceType = ''mp4''\<rparr>,
           \<lparr>v_title = ''b'', srcUrl = Some ''http://player.example/embed/1'', pageUrl = Some ''http://news.example/p'', sourceType = ''embed''\<rparr>,
           \<lparr>v_title = ''c'', srcUrl = Some ''http://youtube.example/watch'', pageUrl = Some ''http://news.example/p'', sourceType = ''youtube''\<rparr>])
   \<and> pageKey \<lparr>v_title = ''c'', srcUrl = Some ''http://youtube.example/watch'', pageUrl = Some ''http://news.example/p'', sourceType = ''youtube''\<rparr>
       = pageKey \<lparr>v_title = ''a'', srcUrl = Some ''http://cdn.example/clip.mp4'', pageUrl = Some ''http://news.example/p'', sourceType = ''mp4''\<rparr>
   \<and> rank \<lparr>v_title = ''c'', srcUrl = Some ''http://youtube.example/watch'', pageUrl = Some ''http://news.example/p'', sourceType = ''youtube''\<rparr>
       \<le> rank \<lparr>v_title = ''a'', srcUrl = Some ''http://cdn.example/clip.mp4'', pageUrl = Some ''http://news.example/p'', sourceType = ''mp4''\<rparr>
   \<and> pageUrl \<lparr>v_title = ''m'', srcUrl = Some ''http://cdn.example/live.m3u8'', pageUrl = None, sourceType = ''m3u8''\<rparr> = None
   \<and> pageKey \<lparr>v_title = ''m'', srcUrl = Some ''http://cdn.example/live.m3u8'', pageUrl = None, sourceType = ''m3u8''\<rparr>
       = Some ''http://cdn.example/live.m3u8''
   \<and> rank \<lparr>v_title = ''m'', srcUrl = Some ''http://cdn.example/live.m3u8'', pageUrl = None, sourceType = ''m3u8''\<rparr> = 2
   \<and> pageUrl \<lparr>v_title = ''y'', srcUrl = Some ''http://youtube.example/watch'', pageUrl = Some ''http://news.example/p'', sourceType = ''YouTube''\<rparr>
       = Some ''http://news.example/p''
   \<and> pageKey \<lparr>v_title = ''y'', srcUrl = Some ''http://youtube.example/watch'', pageUrl = Some ''http://news.example/p'', sourceType = ''YouTube''\<rparr>
       = Some ''http://news.example/p''
   \<and> rank \<lparr>v_title = ''y'', srcUrl = Some ''http://youtube.example/watch'', pageUrl = Some ''http://news.example/p'', sourceType = ''YouTube''\<rparr> = 3"
proof -
  let ?cfg = "\<lparr>playableOnly = False, uniquePerPage = True, fromSelectedOnly = False,
          typeVal = ''all'', vidSearch = '''', selectedUrls = []\<rparr>"
  let ?a = "\<lparr>v_title = ''a'', srcUrl = Some ''http://cdn.example/clip.mp4'', pageUrl = Some ''http://news.example/p'', sourceType = ''mp4''\<rparr>"
  let ?b = "\<lparr>v_title = ''b'', srcUrl = Some ''http://player.example/embed/1'', pageUrl = Some ''http://news.example/p'', sourceType = ''embed''\<rparr>"
  let ?c = "\<lparr>v_title = ''c'', srcUrl = Some ''http://youtube.example/watch'', pageUrl = Some ''http://news.example/p'', sourceType = ''youtube''\<rparr>"
  let ?m = "\<lparr>v_title = ''m'', srcUrl = Some ''http://cdn.example/live.m3u8'', pageUrl = None, sourceType = ''m3u8''\<rparr>"
  let ?y = "\<lparr>v_title = ''y'', srcUrl = Some ''http://youtube.example/watch'', pageUrl = Some ''http://news.example/p'', sourceType = ''YouTube''\<rparr>"
  let ?h = "\<lambda>x::string option. None :: string option"
  let ?k = "\<lambda>s. map (of_char :: char \<Rightarrow> nat) s"
  note t = uniquePerPage_first_best [where cfg = ?cfg and hostOf = ?h and collate = ?k
      and all = "[?a, ?b, ?c]" and v = ?m and p = "''http://news.example/p''"]
  note t2 = uniquePerPage_first_best [where cfg = ?cfg and hostOf = ?h and collate = ?k
      and all = "[?a, ?b, ?c]" and v = ?y and p = "''http://news.example/p''"]
  note rest = t [THEN conjunct2]
  note rest2 = t2 [THEN conjunct2]
  have u: "uniquePerPage ?cfg" by simp
  note general = t [THEN conjunct1, THEN mp, OF u]
  note res = rest [THEN conjunct2, THEN conjunct2, THEN conjunct2, THEN conjunct2,
      THEN conjunct2, THEN conjunct1]
  have m: "?a \<in> set (applyVideoFilters ?h ?k ?cfg [?a, ?b, ?c])"
    unfolding res by simp
  have y: "?c \<in> set (filterStage ?h ?cfg [?a, ?b, ?c])"
    by (simp add: example_filterStage)
  have key: "pageKey ?c = pageKey ?a" by (simp add: pageKey_def)
  note best = general [THEN conjunct2, THEN conjunct2, THEN bspec, OF m]
  note le = best [THEN conjunct2, THEN conjunct1, THEN bspec, OF y, THEN mp, OF key]
  have pm: "pageUrl ?m = None" by simp
  then have pm': "pageUrl ?m = None \<or> pageUrl ?m = Some []" by simp
  have km: "pageKey ?m = Some ''http://cdn.example/live.m3u8''"
    using rest [THEN conjunct2, THEN conjunct1, THEN mp, OF pm'] by simp
  have lm: "toLowerCase (sourceType ?m) = ''m3u8''" by code_simp
  have rm: "rank ?m = 2"
    using rest [THEN conjunct2, THEN conjunct2, THEN conjunct2, THEN conjunct2, THEN conjunct1]
    unfolding lm by simp
  have py: "pageUrl ?y = Some ''http://news.example/p''" by simp
  then have py': "pageUrl ?y = Some ''http://news.example/p'' \<and> ''http://news.example/p'' \<noteq> []"
    by simp
  note ky = rest2 [THEN conjunct1, THEN mp, OF py']
  have ly: "toLowerCase (sourceType ?y) = ''youtube''" by code_simp
  have ry: "rank ?y = 3"
    using rest2 [THEN conjunct2, THEN conjunct2, THEN conjunct2, THEN conjunct2, THEN conjunct1]
    unfolding ly by simp
  from u m y key le pm km rm py ky ry show ?thesis by (intro conjI)
qed

section \<open>Idempotence of the video filter\<close>

lemma filterStage_filter: "filterStage hostOf cfg xs = filter (passesFilters hostOf cfg) xs"
  by (auto simp: filterStage_def passesFilters_def Let_def intro: filter_cong)

lemma bestLoop_distinct:
  assumes "distinct (map pageKey ys)" and "pageKey ` set ys \<inter> fst ` set best = {}"
  shows "bestLoop ys best = best @ map (\<lambda>v. (pageKey v, v)) ys"
  using assms
proof (induction ys arbitrary: best)
  case Nil
  then show ?case by simp
next
  case (Cons y ys)
  from Cons.prems have fresh: "pageKey y \<notin> fst ` set best" by auto
  then have none: "map_of best (pageKey y) = None"
    by (simp add: map_of_eq_None_iff)
  have step: "bestLoop (y # ys) best = bestLoop ys (best @ [(pageKey y, y)])"
    by (simp add: none mapSet_fresh [OF fresh])
  have "bestLoop ys (best @ [(pageKey y, y)]) = (best @ [(pageKey y, y)]) @ map (\<lambda>v. (pageKey v, v)) ys"
    using Cons.prems by (intro Cons.IH) auto
  with step show ?case by simp
qed

lemma uniqueByPage_id: "distinct (map pageKey ys) \<Longrightarrow> uniqueByPage ys = ys"
  using bestLoop_distinct [of ys "[]"] by (simp add: uniqueByPage_def comp_def)

lemma uniqueByPage_subset: "set (uniqueByPage vs) \<subseteq> set vs"
  using uniqueByPage_firstBest by (auto simp: firstBest_def)

lemma sort_key_twice: "sort_key f (sort_key f xs) = sort_key f xs"
  by (rule sort_key_id_if_sorted) (rule sorted_sort_key)

text \<open>
  Claim C9. \<open>applyVideoFilters\<close> is idempotent: for every list of candidates and every
  configuration of the filters (and every hostname and collation function), applying it
  to its own result returns that result.
\<close>

theorem applyVideoFilters_idempotent:
  "applyVideoFilters hostOf collate cfg (applyVideoFilters hostOf collate cfg all)
     = applyVideoFilters hostOf collate cfg all"
proof -
  let ?f = "\<lambda>v. collate (sortKey v)"
  let ?vs = "filterStage hostOf cfg all"
  let ?d = "if uniquePerPage cfg then uniqueByPage ?vs else ?vs"
  let ?ys = "applyVideoFilters hostOf collate cfg all"
  have ys: "?ys = sort_key ?f ?d"
    by (simp add: applyVideoFilters_def)
  have sub: "set ?ys \<subseteq> set ?vs"
    using uniqueByPage_subset [of ?vs] by (auto simp: ys)
  then have "\<forall>v\<in>set ?ys. passesFilters hostOf cfg v"
    by (auto simp: filterStage_filter)
  then have stage: "filterStage hostOf cfg ?ys = ?ys"
    by (simp add: filterStage_filter)
  have uniq: "uniquePerPage cfg \<Longrightarrow> uniqueByPage ?ys = ?ys"
  proof -
    assume "uniquePerPage cfg"
    then have "distinct (map pageKey ?ys)"
      by (simp add: ys distinct_map_sort_key uniqueByPage_distinct)
    then show ?thesis by (rule uniqueByPage_id)
  qed
  have "applyVideoFilters hostOf collate cfg ?ys = sort_key ?f ?ys"
    unfolding applyVideoFilters_def [of hostOf collate cfg ?ys] Let_def stage
    using uniq by simp
  also have "\<dots> = ?ys"
    by (simp only: ys sort_key_twice)
  finally show ?thesis .
qed

theorem applyVideoFilters_idempotent_witness:
  "applyVideoFilters (\<lambda>x. None) (\<lambda>s. map (of_char :: char \<Rightarrow> nat) s)
      \<lparr>playableOnly = False, uniquePerPage = True, fromSelectedOnly = False,
        typeVal = ''all'', vidSearch = '''', selectedUrls = []\<rparr>
      (applyVideoFilters (\<lambda>x. None) (\<lambda>s. map (of_char :: char \<Rightarrow> nat) s)
         \<lparr>playableOnly = False, uniquePerPage = True, fromSelectedOnly = False,
           typeVal = ''all'', vidSearch = '''', selectedUrls = []\<rparr>
         [\<lparr>v_title = ''a'', srcUrl = Some ''http://cdn.example/clip.mp4'', pageUrl = Some ''http://news.example/p'', sourceType = ''mp4''\<rparr>,
          \<lparr>v_title = ''b'', srcUrl = Some ''http://player.example/embed/1'', pageUrl = Some ''http://news.example/p'', sourceType = ''embed''\<rparr>,
          \<lparr>v_title = ''c'', srcUrl = Some ''http://youtube.example/watch'', pageUrl = Some ''http://news.example/p'', sourceType = ''youtube''\<rparr>])
   = [\<lparr>v_title = ''a'', srcUrl = Some ''http://cdn.example/clip.mp4'', pageUrl = Some ''http://news.example/p'', sourceType = ''mp4''\<rparr>]"
proof -
  let ?cfg = "\<lparr>playableOnly = False, uniquePerPage = True, fromSelectedOnly = False,
          typeVal = ''all'', vidSearch = '''', selectedUrls = []\<rparr>"
  let ?a = "\<lparr>v_title = ''a'', srcUrl = Some ''http://cdn.example/clip.mp4'', pageUrl = Some ''http://news.example/p'', sourceType = ''mp4''\<rparr>"
  let ?b = "\<lparr>v_title = ''b'', srcUrl = Some ''http://player.example/embed/1'', pageUrl = Some ''http://news.example/p'', sourceType = ''embed''\<rparr>"
  let ?c = "\<lparr>v_title = ''c'', srcUrl = Some ''http://youtube.example/watch'', pageUrl = Some ''http://news.example/p'', sourceType = ''youtube''\<rparr>"
  let ?h = "\<lambda>x::string option. None :: string option"
  let ?k = "\<lambda>s. map (of_char :: char \<Rightarrow> nat) s"
  have once: "applyVideoFilters ?h ?k ?cfg [?a, ?b, ?c] = [?a]"
    unfolding applyVideoFilters_def Let_def example_filterStage
    by (simp add: example_unique)
  from applyVideoFilters_idempotent [of ?h ?k ?cfg "[?a, ?b, ?c]"] once
  show ?thesis by simp
qed

end
